theory Spec2Isabelle
  imports Main
begin

section \<open>JavaScript strings\<close>

text \<open>
  A JavaScript string is a sequence of UTF-16 code units; every string operation the
  program uses (\<open>split\<close>, \<open>trim\<close>, \<open>startsWith\<close>, \<open>slice\<close>, \<open>indexOf\<close>, \<open>includes\<close>,
  \<open>join\<close>, \<open>+\<close>) works on code units. A string is modelled as the list of its code
  units, and \<open>js\<close> reads an ASCII literal.
\<close>

type_synonym jstring = "nat list"

definition js :: "string \<Rightarrow> jstring" where
  "js s = map of_char s"

text \<open>
  \<open>WhiteSpace\<close> and \<open>LineTerminator\<close> of ECMAScript: what \<open>String.prototype.trim\<close> strips
  and what \<open>\s\<close> matches. A regular-expression dot matches every code point but the
  four line terminators.
\<close>

definition is_line_terminator :: "nat \<Rightarrow> bool" where
  "is_line_terminator c = (c = 0x0A \<or> c = 0x0D \<or> c = 0x2028 \<or> c = 0x2029)"

definition is_white :: "nat \<Rightarrow> bool" where
  "is_white c =
     (c = 0x09 \<or> c = 0x0B \<or> c = 0x0C \<or> c = 0x20 \<or> c = 0xA0 \<or> c = 0x1680
      \<or> (0x2000 \<le> c \<and> c \<le> 0x200A) \<or> c = 0x202F \<or> c = 0x205F \<or> c = 0x3000
      \<or> c = 0xFEFF \<or> is_line_terminator c)"

definition trim :: "jstring \<Rightarrow> jstring" where
  "trim s = rev (dropWhile is_white (rev (dropWhile is_white s)))"

definition startsWith :: "jstring \<Rightarrow> jstring \<Rightarrow> bool" where
  "startsWith s p = (take (length p) s = p)"

definition endsWith :: "jstring \<Rightarrow> jstring \<Rightarrow> bool" where
  "endsWith s p = (length p \<le> length s \<and> drop (length s - length p) s = p)"

fun str_includes :: "jstring \<Rightarrow> jstring \<Rightarrow> bool" where
  "str_includes [] k = (k = [])"
| "str_includes (c # s) k = (startsWith (c # s) k \<or> str_includes s k)"

text \<open>\<open>s.split(sep)\<close> for a separator of one code unit: never the empty list.\<close>

fun str_split :: "nat \<Rightarrow> jstring \<Rightarrow> jstring list" where
  "str_split sep [] = [[]]"
| "str_split sep (c # s) =
     (if c = sep then [] # str_split sep s
      else (case str_split sep s of
              [] \<Rightarrow> [[c]]
            | l # ls \<Rightarrow> (c # l) # ls))"

fun str_join :: "jstring \<Rightarrow> jstring list \<Rightarrow> jstring" where
  "str_join sep [] = []"
| "str_join sep [x] = x"
| "str_join sep (x # y # r) = x @ sep @ str_join sep (y # r)"

section \<open>JavaScript values read from JSON\<close>

text \<open>
  The values \<open>JSON.parse\<close>, \<open>Request.json\<close> and \<open>Response.json\<close> produce, with
  \<open>undefined\<close> for an absent property. An object is the list of its own properties.
  The program never computes with a number: it only tests it (\<open>!x\<close>, \<open>if (x)\<close>) and
  prints it (template literals, \<open>+=\<close>, \<open>join\<close>). A number is therefore carried as the two
  things observed of it: whether it is falsy (\<open>+0\<close>, \<open>-0\<close>, \<open>NaN\<close>) and the text
  \<open>Number::toString\<close> gives for it.
\<close>

datatype js_value =
    JUndefined
  | JNull
  | JBool bool
  | JNum bool jstring
  | JStr jstring
  | JArr "js_value list"
  | JObj "(jstring \<times> js_value) list"

text \<open>
  What a \<open>catch\<close> can receive. \<open>Error_exn m\<close> is an \<open>Error\<close> object with message \<open>m\<close>
  (made by \<open>new Error(m)\<close> or raised by the platform: a rejected \<open>fetch\<close>, a body that is
  not JSON). \<open>TypeError_exn site\<close> is the \<open>TypeError\<close> the language raises at \<open>site\<close>;
  its message is the engine's. \<open>Thrown_exn\<close> is a thrown value that is not an \<open>Error\<close>.
\<close>

datatype exn =
    Error_exn jstring
  | TypeError_exn jstring
  | Thrown_exn

definition and_then :: "exn + 'a \<Rightarrow> ('a \<Rightarrow> exn + 'b) \<Rightarrow> exn + 'b" where
  "and_then r f = (case r of Inl e \<Rightarrow> Inl e | Inr x \<Rightarrow> f x)"

definition nullish :: "js_value \<Rightarrow> bool" where
  "nullish v = (v = JUndefined \<or> v = JNull)"

text \<open>
  \<open>v.name\<close> for the property names the program reads (\<open>choices\<close>, \<open>delta\<close>, \<open>content\<close>,
  \<open>owner\<close>, \<open>repo\<close>, \<open>title\<close>, \<open>labels\<close>, \<open>name\<close>, ...): none of them is defined on a
  built-in prototype, so only an object's own property can answer; \<open>null\<close> and
  \<open>undefined\<close> raise.
\<close>

definition get_member :: "js_value \<Rightarrow> jstring \<Rightarrow> exn + js_value" where
  "get_member v name =
     (case v of
        JUndefined \<Rightarrow> Inl (TypeError_exn name)
      | JNull \<Rightarrow> Inl (TypeError_exn name)
      | JObj props \<Rightarrow> (case map_of props name of None \<Rightarrow> Inr JUndefined | Some x \<Rightarrow> Inr x)
      | _ \<Rightarrow> Inr JUndefined)"

text \<open>\<open>v?.name\<close>: \<open>undefined\<close> when \<open>v\<close> is \<open>null\<close> or \<open>undefined\<close>.\<close>

definition opt_member :: "js_value \<Rightarrow> jstring \<Rightarrow> exn + js_value" where
  "opt_member v name = (if nullish v then Inr JUndefined else get_member v name)"

text \<open>\<open>v?.[0]\<close>: the first element of an array, the first code unit of a string.\<close>

definition opt_first :: "js_value \<Rightarrow> exn + js_value" where
  "opt_first v =
     (case v of
        JArr xs \<Rightarrow> (case xs of [] \<Rightarrow> Inr JUndefined | x # _ \<Rightarrow> Inr x)
      | JStr s \<Rightarrow> (case s of [] \<Rightarrow> Inr JUndefined | c # _ \<Rightarrow> Inr (JStr [c]))
      | JObj props \<Rightarrow> (case map_of props (js ''0'') of None \<Rightarrow> Inr JUndefined | Some x \<Rightarrow> Inr x)
      | _ \<Rightarrow> Inr JUndefined)"

definition ToBoolean :: "js_value \<Rightarrow> bool" where
  "ToBoolean v =
     (case v of
        JUndefined \<Rightarrow> False
      | JNull \<Rightarrow> False
      | JBool b \<Rightarrow> b
      | JNum falsy _ \<Rightarrow> \<not> falsy
      | JStr s \<Rightarrow> s \<noteq> []
      | JArr _ \<Rightarrow> True
      | JObj _ \<Rightarrow> True)"

text \<open>
  \<open>ToString\<close>, as a template literal and \<open>+=\<close> on a string apply it. An array prints
  as \<open>join(",")\<close>. A plain object prints as \<open>[object Object]\<close> through
  \<open>Object.prototype.toString\<close>, unless it has an own property \<open>toString\<close>: a value read
  from JSON is never callable, \<open>valueOf\<close> gives no primitive either, and the conversion
  raises a \<open>TypeError\<close>. \<open>join_values\<close> is \<open>Array.prototype.join\<close>: \<open>null\<close> and
  \<open>undefined\<close> elements print as the empty string.
\<close>

fun ToString :: "js_value \<Rightarrow> exn + jstring"
  and join_values :: "jstring \<Rightarrow> js_value list \<Rightarrow> exn + jstring" where
  "ToString JUndefined = Inr (js ''undefined'')"
| "ToString JNull = Inr (js ''null'')"
| "ToString (JBool b) = Inr (if b then js ''true'' else js ''false'')"
| "ToString (JNum falsy shown) = Inr shown"
| "ToString (JStr s) = Inr s"
| "ToString (JArr xs) = join_values (js '','') xs"
| "ToString (JObj props) =
     (if js ''toString'' \<in> set (map fst props)
      then Inl (TypeError_exn (js ''toString''))
      else Inr (js ''[object Object]''))"
| "join_values sep [] = Inr []"
| "join_values sep (x # xs) =
     (case (if x = JUndefined \<or> x = JNull then Inr [] else ToString x) of
        Inl e \<Rightarrow> Inl e
      | Inr a \<Rightarrow>
          (if xs = [] then Inr a
           else (case join_values sep xs of
                   Inl e \<Rightarrow> Inl e
                 | Inr b \<Rightarrow> Inr (a @ sep @ b))))"

section \<open>The section segmenter (parseSections)\<close>

record Section =
  icon :: jstring
  title :: jstring
  content :: jstring

text \<open>The local variable \<open>current\<close>: the heading being collected, with its lines.\<close>

record Heading =
  cur_icon :: jstring
  cur_title :: jstring
  cur_lines :: "jstring list"

text \<open>The table \<open>sectionIcons\<close>, in insertion order (the order of \<open>Object.entries\<close>).\<close>

definition sectionIcons :: "(jstring \<times> jstring) list" where
  "sectionIcons =
     [(js ''Project Overview'', [0xD83C, 0xDFD7, 0xFE0F]),
      (js ''Tech Stack Analysis'', [0x2699, 0xFE0F]),
      (js ''Architecture Pattern'', [0xD83E, 0xDDE9]),
      (js ''Repository Health Score'', [0xD83D, 0xDCCA]),
      (js ''Good First Issues'', [0xD83D, 0xDC1B]),
      (js ''Contribution Difficulty'', [0xD83C, 0xDFAF]),
      (js ''Open Source Onboarding Plan'', [0xD83D, 0xDE80])]"

text \<open>The two fixed icons: U+1F4C4 for an unknown heading, U+1F4CB for leading text.\<close>

definition page_icon :: jstring where
  "page_icon = [0xD83D, 0xDCC4]"

definition clipboard_icon :: jstring where
  "clipboard_icon = [0xD83D, 0xDCCB]"

text \<open>
  The heading pattern \<open>/^##\s+(?:[\u{1F000}-\u{1FFFF}]\s*)?(.+)/u\<close>, matched from index 0
  as a backtracking matcher does: each greedy quantifier tries its longest match first and
  gives code units back one at a time; the optional group is tried before it is skipped.
  The result is capture group 1. With the \<open>u\<close> flag the class matches one code point,
  which in the range U+1F000..U+1FFFF is a surrogate pair D83C..D83F, DC00..DFFF.
\<close>

definition dot_plus :: "jstring \<Rightarrow> jstring option" where
  "dot_plus s =
     (let m = takeWhile (\<lambda>c. \<not> is_line_terminator c) s
      in if m = [] then None else Some m)"

fun first_match :: "('a \<Rightarrow> 'b option) \<Rightarrow> 'a list \<Rightarrow> 'b option" where
  "first_match f [] = None"
| "first_match f (x # xs) = (case f x of Some y \<Rightarrow> Some y | None \<Rightarrow> first_match f xs)"

definition symbol_at :: "jstring \<Rightarrow> bool" where
  "symbol_at s =
     (case s of
        hi # lo # _ \<Rightarrow> 0xD83C \<le> hi \<and> hi \<le> 0xD83F \<and> 0xDC00 \<le> lo \<and> lo \<le> 0xDFFF
      | _ \<Rightarrow> False)"

definition after_symbol :: "jstring \<Rightarrow> jstring option" where
  "after_symbol p =
     (if symbol_at p
      then (let q = drop 2 p; n = length (takeWhile is_white q)
            in first_match (\<lambda>j. dot_plus (drop j q)) (rev [0..<Suc n]))
      else None)"

definition h2Match :: "jstring \<Rightarrow> jstring option" where
  "h2Match line =
     (if startsWith line (js ''##'')
      then (let r = drop 2 line; n = length (takeWhile is_white r)
            in first_match
                 (\<lambda>k. let p = drop k r
                      in (case after_symbol p of
                            Some g \<Rightarrow> Some g
                          | None \<Rightarrow> dot_plus p))
                 (rev [1..<Suc n]))
      else None)"

definition icon_for :: "jstring \<Rightarrow> jstring" where
  "icon_for rawTitle =
     (case find (\<lambda>(k, v). str_includes rawTitle k) sectionIcons of
        None \<Rightarrow> page_icon
      | Some (k, v) \<Rightarrow> if v = [] then page_icon else v)"

definition close_heading :: "Heading \<Rightarrow> Section" where
  "close_heading c =
     \<lparr>icon = cur_icon c, title = cur_title c,
      content = trim (str_join [0x0A] (cur_lines c))\<rparr>"

text \<open>One iteration of \<open>for (const line of lines)\<close> on the pair (sections, current).\<close>

definition segment_line ::
  "Section list \<times> Heading option \<Rightarrow> jstring \<Rightarrow> Section list \<times> Heading option" where
  "segment_line st line =
     (let sections = fst st; current = snd st in
      case h2Match line of
        Some g \<Rightarrow>
          (let sections' = (case current of
                              Some c \<Rightarrow> sections @ [close_heading c]
                            | None \<Rightarrow> sections);
               rawTitle = trim g
           in (sections',
               Some \<lparr>cur_icon = icon_for rawTitle, cur_title = rawTitle, cur_lines = []\<rparr>))
      | None \<Rightarrow>
          (case current of
             Some c \<Rightarrow> (sections, Some (c\<lparr>cur_lines := cur_lines c @ [line]\<rparr>))
           | None \<Rightarrow>
               if trim line \<noteq> []
               then (let sections' =
                           (if sections = [] \<or> title (last sections) \<noteq> []
                            then sections @ [\<lparr>icon = clipboard_icon, title = [], content = []\<rparr>]
                            else sections);
                         s = last sections'
                     in (butlast sections'
                           @ [s\<lparr>content := content s @ line @ [0x0A]\<rparr>], None))
               else (sections, None)))"

definition parseSections :: "jstring \<Rightarrow> Section list" where
  "parseSections md =
     (let st = foldl segment_line ([], None) (str_split 0x0A md)
      in case snd st of
           Some c \<Rightarrow> fst st @ [close_heading c]
         | None \<Rightarrow> fst st)"

text \<open>A text none of whose lines matches the heading pattern.\<close>

definition no_heading :: "jstring \<Rightarrow> bool" where
  "no_heading md = list_all (\<lambda>line. h2Match line = None) (str_split 0x0A md)"

text \<open>The lines that are not blank, and the one title-less section that collects them.\<close>

definition nonblank_lines :: "jstring \<Rightarrow> jstring list" where
  "nonblank_lines md = filter (\<lambda>line. trim line \<noteq> []) (str_split 0x0A md)"

definition leading_sections :: "jstring list \<Rightarrow> Section list" where
  "leading_sections ls =
     (if ls = [] then []
      else [\<lparr>icon = clipboard_icon, title = [],
             content = concat (map (\<lambda>line. line @ [0x0A]) ls)\<rparr>])"

section \<open>The frame decoder (the read loop of handleAnalyze)\<close>

text \<open>
  The body of the \<open>try\<close> inside the inner loop, for one payload \<open>jsonStr\<close>:
  \<open>JSON.parse\<close>, the optional chain \<open>parsed.choices?.[0]?.delta?.content\<close>, and the
  append under \<open>if (content)\<close>. \<open>Inl\<close>: something raised (the \<open>catch\<close> runs);
  \<open>Inr None\<close>: nothing to append; \<open>Inr (Some s)\<close>: \<open>s\<close> is appended. \<open>JSON.parse\<close> is
  the runtime's and is a parameter.
\<close>

definition delta_content :: "js_value \<Rightarrow> exn + js_value" where
  "delta_content parsed =
     and_then (get_member parsed (js ''choices'')) (\<lambda>choices.
       if nullish choices then Inr JUndefined
       else and_then (opt_first choices) (\<lambda>choice.
         and_then (opt_member choice (js ''delta'')) (\<lambda>delta.
           opt_member delta (js ''content''))))"

definition decode_frame :: "(jstring \<Rightarrow> exn + js_value) \<Rightarrow> jstring \<Rightarrow> exn + jstring option" where
  "decode_frame parse jsonStr =
     and_then (parse jsonStr) (\<lambda>parsed.
       and_then (delta_content parsed) (\<lambda>content.
         if ToBoolean content
         then and_then (ToString content) (\<lambda>s. Inr (Some s))
         else Inr None))"

text \<open>
  The variables of the loop: \<open>buffer\<close> and \<open>result\<close> as in the source; \<open>shown\<close> lists
  the arguments of the calls \<open>setAnalysis(result)\<close> in order; \<open>emitted\<close> lists the values
  appended by \<open>result += content\<close> in order (the text deltas).
\<close>

record decoder =
  buffer :: jstring
  result :: jstring
  shown :: "jstring list"
  emitted :: "jstring list"

text \<open>\<open>s.indexOf(c)\<close> for one code unit; \<open>None\<close> stands for \<open>-1\<close>.\<close>

definition indexOf :: "jstring \<Rightarrow> nat \<Rightarrow> nat option" where
  "indexOf s c = (if c \<in> set s then Some (length (takeWhile (\<lambda>x. x \<noteq> c) s)) else None)"

text \<open>
  The inner loop \<open>while ((newlineIndex = buffer.indexOf("\n")) !== -1)\<close>. Both
  \<open>break\<close>s leave this loop only: the one at the sentinel and the one in the \<open>catch\<close>,
  which first puts the line and its newline back in front of the buffer.
\<close>

function drain :: "(jstring \<Rightarrow> exn + js_value) \<Rightarrow> decoder \<Rightarrow> decoder" where
  "drain parse st =
     (case indexOf (buffer st) 0x0A of
        None \<Rightarrow> st
      | Some newlineIndex \<Rightarrow>
          (let line0 = take newlineIndex (buffer st);
               rest = drop (Suc newlineIndex) (buffer st);
               line = (if endsWith line0 [0x0D] then butlast line0 else line0)
           in if \<not> startsWith line (js ''data: '') then drain parse (st\<lparr>buffer := rest\<rparr>)
              else (let jsonStr = trim (drop 6 line)
                    in if jsonStr = js ''[DONE]'' then st\<lparr>buffer := rest\<rparr>
                       else (case decode_frame parse jsonStr of
                               Inl e \<Rightarrow> st\<lparr>buffer := line @ [0x0A] @ rest\<rparr>
                             | Inr None \<Rightarrow> drain parse (st\<lparr>buffer := rest\<rparr>)
                             | Inr (Some s) \<Rightarrow>
                                 drain parse
                                   (st\<lparr>buffer := rest,
                                       result := result st @ s,
                                       shown := shown st @ [result st @ s],
                                       emitted := emitted st @ [s]\<rparr>)))))"
  by pat_completeness auto
termination
proof -
  have found: "i < length b" if "indexOf b 0x0A = Some i" for b i
  proof -
    from that have mem: "0x0A \<in> set b"
      and i: "i = length (takeWhile (\<lambda>x. x \<noteq> 0x0A) b)"
      by (auto simp: indexOf_def split: if_splits)
    have "i \<noteq> length b"
    proof
      assume "i = length b"
      with i have "takeWhile (\<lambda>x. x \<noteq> 0x0A) b = b"
        using takeWhile_eq_take [of "\<lambda>x. x \<noteq> 0x0A" b] by simp
      then have "\<forall>x \<in> set b. x \<noteq> 0x0A"
        by simp
      with mem show False
        by blast
    qed
    moreover have "i \<le> length b"
      unfolding i by (rule length_takeWhile_le)
    ultimately show ?thesis
      by simp
  qed
  show ?thesis
    by (relation "measure (\<lambda>(parse, st). length (buffer st))") (auto dest: found)
qed

declare drain.simps [simp del]

text \<open>
  One turn of the outer loop \<open>while (true)\<close> for a chunk that was read: the decoded text
  of the chunk is appended to the buffer and the inner loop runs. \<open>TextDecoder\<close> in
  streaming mode holds back an unfinished multi-byte sequence, so the decoded texts of the
  reads concatenate to the decoded text of the whole stream: a chunk is modelled as its
  decoded text. The outer loop ends when the reader reports \<open>done\<close>.
\<close>

definition feed :: "(jstring \<Rightarrow> exn + js_value) \<Rightarrow> decoder \<Rightarrow> jstring \<Rightarrow> decoder" where
  "feed parse st chunk = drain parse (st\<lparr>buffer := buffer st @ chunk\<rparr>)"

definition fresh_decoder :: decoder where
  "fresh_decoder = \<lparr>buffer = [], result = [], shown = [], emitted = []\<rparr>"

definition read_stream :: "(jstring \<Rightarrow> exn + js_value) \<Rightarrow> jstring list \<Rightarrow> decoder" where
  "read_stream parse chunks = foldl (feed parse) fresh_decoder chunks"

subsection \<open>The wire format, read as a whole\<close>

text \<open>
  The event stream is newline-delimited text. A complete line (one that has its newline)
  is a data frame when, a trailing carriage return apart, it starts with \<open>data: \<close>; its
  payload is the rest, trimmed. The payload \<open>[DONE]\<close> is the sentinel.
\<close>

definition complete_lines :: "jstring \<Rightarrow> jstring list" where
  "complete_lines s = butlast (str_split 0x0A s)"

definition data_payload :: "jstring \<Rightarrow> jstring option" where
  "data_payload line0 =
     (let line = (if endsWith line0 [0x0D] then butlast line0 else line0)
      in if startsWith line (js ''data: '') then Some (trim (drop 6 line)) else None)"

text \<open>
  The text deltas of the frames of a list of lines, in order, up to the sentinel: what a
  reader of the whole stream extracts. A frame whose payload cannot be decoded ends the
  reading (no valid stream has one): the read loop puts such a line back and stops at it.
\<close>

fun frame_deltas :: "(jstring \<Rightarrow> exn + js_value) \<Rightarrow> jstring list \<Rightarrow> jstring list" where
  "frame_deltas parse [] = []"
| "frame_deltas parse (l # ls) =
     (case data_payload l of
        None \<Rightarrow> frame_deltas parse ls
      | Some p \<Rightarrow>
          if p = js ''[DONE]'' then []
          else (case decode_frame parse p of
                  Inl e \<Rightarrow> []
                | Inr None \<Rightarrow> frame_deltas parse ls
                | Inr (Some s) \<Rightarrow> s # frame_deltas parse ls))"

text \<open>
  A valid frame stream: the payload of every data frame before the sentinel decodes, and
  the sentinel, when there is one, is the last data frame (lines that are not data frames
  may follow it).
\<close>

fun valid_lines :: "(jstring \<Rightarrow> exn + js_value) \<Rightarrow> jstring list \<Rightarrow> bool" where
  "valid_lines parse [] = True"
| "valid_lines parse (l # ls) =
     (case data_payload l of
        None \<Rightarrow> valid_lines parse ls
      | Some p \<Rightarrow>
          if p = js ''[DONE]'' then list_all (\<lambda>l'. data_payload l' = None) ls
          else (case decode_frame parse p of
                  Inl e \<Rightarrow> False
                | Inr c \<Rightarrow> valid_lines parse ls))"

definition valid_frame_stream :: "(jstring \<Rightarrow> exn + js_value) \<Rightarrow> jstring \<Rightarrow> bool" where
  "valid_frame_stream parse s = valid_lines parse (complete_lines s)"

subsection \<open>JSON.parse on the frames of the examples\<close>

text \<open>
  The examples below run the decoder on frames of the one shape
  \<open>{"choices":[{"delta":{"content":"..."}}]}\<close> whose text has no quote, backslash or
  control character, and on cut-off pieces of such frames. On these texts \<open>JSON.parse\<close>
  returns the object below, respectively raises a \<open>SyntaxError\<close>; \<open>parse_delta_json\<close>
  does the same and is used on no other text.
\<close>

definition delta_json :: "jstring \<Rightarrow> js_value" where
  "delta_json s =
     JObj [(js ''choices'',
            JArr [JObj [(js ''delta'', JObj [(js ''content'', JStr s)])]])]"

definition parse_delta_json :: "jstring \<Rightarrow> exn + js_value" where
  "parse_delta_json t =
     (let pre = js ''{\"choices\":[{\"delta\":{\"content\":\"'';
          suf = js ''\"}}]}'';
          s = take (length t - length pre - length suf) (drop (length pre) t)
      in if t = pre @ s @ suf \<and> list_all (\<lambda>c. 0x20 \<le> c \<and> c \<noteq> 0x22 \<and> c \<noteq> 0x5C) s
         then Inr (delta_json s)
         else Inl (Error_exn (js ''SyntaxError'')))"

subsection \<open>Notions used to state the decoder's properties\<close>

text \<open>
  \<open>running_texts acc ds\<close>: the values \<open>result\<close> takes while the deltas \<open>ds\<close> are appended to
  \<open>acc\<close> one after the other.
\<close>

fun running_texts :: "jstring \<Rightarrow> jstring list \<Rightarrow> jstring list" where
  "running_texts acc [] = []"
| "running_texts acc (d # ds) = (acc @ d) # running_texts (acc @ d) ds"

definition unlines :: "jstring list \<Rightarrow> jstring" where
  "unlines ls = concat (map (\<lambda>l. l @ [0x0A]) ls)"

definition newline_free :: "jstring list \<Rightarrow> bool" where
  "newline_free ls = list_all (\<lambda>l. 0x0A \<notin> set l) ls"

definition has_sentinel :: "jstring list \<Rightarrow> bool" where
  "has_sentinel ls = list_ex (\<lambda>l. data_payload l = Some (js ''[DONE]'')) ls"

definition quiet :: "jstring list \<Rightarrow> bool" where
  "quiet ls = list_all (\<lambda>l. data_payload l = None) ls"

text \<open>
  The two invariants of the read loop: the report is the concatenation of the deltas
  appended so far and every displayed value is the report after one of them; and, for
  the text \<open>s\<close> received so far, the decoder has consumed whole lines \<open>ls\<close> of it, emitted
  their deltas, and either met the sentinel or holds an unfinished line only.
\<close>

definition report_inv :: "decoder \<Rightarrow> bool" where
  "report_inv st \<longleftrightarrow>
     result st = concat (emitted st) \<and> shown st = running_texts [] (emitted st)"

definition stream_inv :: "(jstring \<Rightarrow> exn + js_value) \<Rightarrow> decoder \<Rightarrow> jstring \<Rightarrow> bool" where
  "stream_inv parse st s \<longleftrightarrow>
     (\<exists>ls. newline_free ls \<and> s = unlines ls @ buffer st
           \<and> emitted st = frame_deltas parse ls
           \<and> (has_sentinel ls \<or> 0x0A \<notin> set (buffer st)))"

subsection \<open>Streams with a frame that cannot be decoded\<close>

text \<open>
  The weaker condition on a stream that only asks the sentinel, when there is one, to be
  the last data frame; payloads that cannot be decoded are allowed. A complete data
  line is stuck when its payload is not the sentinel and the \<open>try\<close> raises on it: the
  \<open>catch\<close> then puts the line back in front of the buffer.
\<close>

fun sentinel_is_last :: "jstring list \<Rightarrow> bool" where
  "sentinel_is_last [] = True"
| "sentinel_is_last (l # ls) =
     (case data_payload l of
        None \<Rightarrow> sentinel_is_last ls
      | Some p \<Rightarrow> if p = js ''[DONE]'' then quiet ls else sentinel_is_last ls)"

definition stuck :: "(jstring \<Rightarrow> exn + js_value) \<Rightarrow> jstring \<Rightarrow> bool" where
  "stuck parse l =
     (case data_payload l of
        None \<Rightarrow> False
      | Some p \<Rightarrow>
          p \<noteq> js ''[DONE]''
          \<and> (case decode_frame parse p of Inl e \<Rightarrow> True | Inr c \<Rightarrow> False))"

definition halts :: "(jstring \<Rightarrow> exn + js_value) \<Rightarrow> jstring list \<Rightarrow> bool" where
  "halts parse ls = (has_sentinel ls \<or> list_ex (stuck parse) ls)"





section \<open>The aggregator (the analyze-repo edge function)\<close>

subsection \<open>The world the handler runs in\<close>

text \<open>
  An outbound request as the handler builds it: \<open>req_body\<close> is the value handed to
  \<open>JSON.stringify\<close>, when there is a body.
\<close>

record request =
  req_url :: jstring
  req_method :: jstring
  req_headers :: "(jstring \<times> jstring) list"
  req_body :: "js_value option"

text \<open>
  What \<open>fetch\<close> resolves to: the status, what \<open>await res.text()\<close> and
  \<open>await res.json()\<close> yield (a value, or the exception they raise), and the body stream
  itself, of a type \<open>'b\<close> the handler never looks into.
\<close>

record 'b http_response =
  http_status :: nat
  body_text :: "exn + jstring"
  body_json :: "exn + js_value"
  body_stream :: 'b

datatype 'b fetch_result = Rejected exn | Responded "'b http_response"

text \<open>
  Everything outside the handler: the environment variables (\<open>Deno.env.get\<close>), the
  network (\<open>fetch\<close>), and the message the engine gives the \<open>TypeError\<close> it raises at a
  site.
\<close>

record 'b world =
  env_get :: "jstring \<Rightarrow> jstring option"
  fetch :: "request \<Rightarrow> 'b fetch_result"
  engine_message :: "jstring \<Rightarrow> jstring"

text \<open>What the handler does to the world, in order.\<close>

datatype log_arg = Log_text jstring | Log_number nat | Log_exn exn

datatype event = Env_read jstring | Fetch request | Console_error "log_arg list"

text \<open>The inbound request: its method and what \<open>await req.json()\<close> yields.\<close>

record inbound =
  in_method :: jstring
  in_json :: "exn + js_value"

text \<open>
  The response: a JSON body is kept as the value handed to \<open>JSON.stringify\<close>, a
  streamed body as the upstream stream it passes on.
\<close>

datatype 'b body = Null_body | Json_body js_value | Stream_body 'b

record 'b response =
  status :: nat
  headers :: "(jstring \<times> jstring) list"
  body :: "'b body"

definition ok :: "'b http_response \<Rightarrow> bool" where
  "ok res = (200 \<le> http_status res \<and> http_status res \<le> 299)"

definition corsHeaders :: "(jstring \<times> jstring) list" where
  "corsHeaders =
     [(js ''Access-Control-Allow-Origin'', js ''*''),
      (js ''Access-Control-Allow-Headers'',
        js ''authorization, x-client-info, apikey, content-type, x-supabase-client-platform, ''
        @ js ''x-supabase-client-platform-version, x-supabase-client-runtime, x-supabase-client-runtime-version'')]"

definition GITHUB_API :: jstring where
  "GITHUB_API = js ''https://api.github.com''"

definition GATEWAY_URL :: jstring where
  "GATEWAY_URL = js ''https://ai.gateway.lovable.dev/v1/chat/completions''"

subsection \<open>Template literals and array methods\<close>

text \<open>
  A template literal: its pieces are evaluated and converted left to right, and the first
  exception ends it. A literal piece is \<open>Inr text\<close>; a substitution is the outcome of
  evaluating the expression and converting it to a string.
\<close>

fun template :: "(exn + jstring) list \<Rightarrow> exn + jstring" where
  "template [] = Inr []"
| "template (p # ps) =
     (case p of
        Inl e \<Rightarrow> Inl e
      | Inr s \<Rightarrow> (case template ps of Inl e \<Rightarrow> Inl e | Inr r \<Rightarrow> Inr (s @ r)))"

text \<open>\<open>xs.map(f)\<close> for an \<open>f\<close> that may raise.\<close>

fun map_exn :: "('a \<Rightarrow> exn + 'b) \<Rightarrow> 'a list \<Rightarrow> exn + 'b list" where
  "map_exn f [] = Inr []"
| "map_exn f (x # xs) =
     (case f x of
        Inl e \<Rightarrow> Inl e
      | Inr y \<Rightarrow> (case map_exn f xs of Inl e \<Rightarrow> Inl e | Inr ys \<Rightarrow> Inr (y # ys)))"

text \<open>The decimal digits of an array index (\<open>${idx + 1}\<close>).\<close>

fun decimal :: "nat \<Rightarrow> jstring" where
  "decimal n = (if n < 10 then [0x30 + n] else decimal (n div 10) @ [0x30 + n mod 10])"

declare decimal.simps [simp del]

definition get_request :: "jstring \<Rightarrow> jstring \<Rightarrow> request" where
  "get_request url accept =
     \<lparr>req_url = url, req_method = js ''GET'',
      req_headers = [(js ''Accept'', accept)], req_body = None\<rparr>"

subsection \<open>The three collectors\<close>

text \<open>
  Each collector returns its result and the requests it issued. The whole body is inside
  \<open>try\<close>, the building of the URL included.
\<close>

definition fetchReadme :: "'b world \<Rightarrow> js_value \<Rightarrow> js_value \<Rightarrow> jstring \<times> event list" where
  "fetchReadme w owner repo =
     (case template [Inr GITHUB_API, Inr (js ''/repos/''), ToString owner, Inr (js ''/''),
                     ToString repo, Inr (js ''/readme'')] of
        Inl e \<Rightarrow> (js ''Failed to fetch README.'', [])
      | Inr url \<Rightarrow>
          (let rq = get_request url (js ''application/vnd.github.raw'')
           in ((case fetch w rq of
                  Rejected e \<Rightarrow> js ''Failed to fetch README.''
                | Responded res \<Rightarrow>
                    if \<not> ok res then js ''README not found.''
                    else (case body_text res of
                            Inl e \<Rightarrow> js ''Failed to fetch README.''
                          | Inr text \<Rightarrow> take 6000 text)),
               [Fetch rq])))"

record issue =
  issue_title :: js_value
  issue_labels :: "js_value list"
  issue_state :: js_value
  issue_comments :: js_value
  issue_url :: js_value

text \<open>The callback of \<open>issues.map\<close>, with \<open>i.labels?.map((l) => l.name) ?? []\<close>.\<close>

definition label_names :: "js_value \<Rightarrow> exn + js_value list" where
  "label_names labels =
     (if nullish labels then Inr []
      else (case labels of
              JArr ls \<Rightarrow> map_exn (\<lambda>l. get_member l (js ''name'')) ls
            | _ \<Rightarrow> Inl (TypeError_exn (js ''map''))))"

definition summarize_issue :: "js_value \<Rightarrow> exn + issue" where
  "summarize_issue i =
     and_then (get_member i (js ''title'')) (\<lambda>t.
     and_then (get_member i (js ''labels'')) (\<lambda>labels.
     and_then (label_names labels) (\<lambda>names.
     and_then (get_member i (js ''state'')) (\<lambda>s.
     and_then (get_member i (js ''comments'')) (\<lambda>c.
     and_then (get_member i (js ''html_url'')) (\<lambda>u.
       Inr \<lparr>issue_title = t, issue_labels = names, issue_state = s,
            issue_comments = c, issue_url = u\<rparr>))))))"

definition summarize_issues :: "js_value \<Rightarrow> exn + issue list" where
  "summarize_issues issues =
     (case issues of
        JArr xs \<Rightarrow> map_exn summarize_issue xs
      | _ \<Rightarrow> Inl (TypeError_exn (js ''map'')))"

definition fetchIssues :: "'b world \<Rightarrow> js_value \<Rightarrow> js_value \<Rightarrow> issue list \<times> event list" where
  "fetchIssues w owner repo =
     (case template [Inr GITHUB_API, Inr (js ''/repos/''), ToString owner, Inr (js ''/''),
                     ToString repo, Inr (js ''/issues?state=open&per_page=15'')] of
        Inl e \<Rightarrow> ([], [])
      | Inr url \<Rightarrow>
          (let rq = get_request url (js ''application/vnd.github+json'')
           in ((case fetch w rq of
                  Rejected e \<Rightarrow> []
                | Responded res \<Rightarrow>
                    if \<not> ok res then []
                    else (case and_then (body_json res) summarize_issues of
                            Inl e \<Rightarrow> []
                          | Inr summaries \<Rightarrow> summaries)),
               [Fetch rq])))"

record stats =
  stars :: js_value
  forks :: js_value
  open_issues :: js_value
  language :: js_value
  license :: js_value
  last_updated :: js_value
  description :: js_value
  topics :: js_value

definition read_stats :: "js_value \<Rightarrow> exn + stats" where
  "read_stats data =
     and_then (get_member data (js ''stargazers_count'')) (\<lambda>s.
     and_then (get_member data (js ''forks_count'')) (\<lambda>f.
     and_then (get_member data (js ''open_issues_count'')) (\<lambda>oi.
     and_then (get_member data (js ''language'')) (\<lambda>lang.
     and_then (get_member data (js ''license'')) (\<lambda>lic.
     and_then (opt_member lic (js ''spdx_id'')) (\<lambda>spdx.
     and_then (get_member data (js ''updated_at'')) (\<lambda>upd.
     and_then (get_member data (js ''description'')) (\<lambda>d.
     and_then (get_member data (js ''topics'')) (\<lambda>tp.
       Inr \<lparr>stars = s, forks = f, open_issues = oi, language = lang,
            license = (if nullish spdx then JStr (js ''None'') else spdx),
            last_updated = upd, description = d,
            topics = (if nullish tp then JArr [] else tp)\<rparr>)))))))))"

text \<open>\<open>null\<close> is \<open>None\<close>: the \<open>catch\<close> returns it, also for the \<open>Error\<close> thrown on \<open>!res.ok\<close>.\<close>

definition fetchRepoStats ::
  "'b world \<Rightarrow> js_value \<Rightarrow> js_value \<Rightarrow> stats option \<times> event list" where
  "fetchRepoStats w owner repo =
     (case template [Inr GITHUB_API, Inr (js ''/repos/''), ToString owner, Inr (js ''/''),
                     ToString repo] of
        Inl e \<Rightarrow> (None, [])
      | Inr url \<Rightarrow>
          (let rq = get_request url (js ''application/vnd.github+json'')
           in ((case fetch w rq of
                  Rejected e \<Rightarrow> None
                | Responded res \<Rightarrow>
                    if \<not> ok res then None
                    else (case and_then (body_json res) read_stats of
                            Inl e \<Rightarrow> None
                          | Inr st \<Rightarrow> Some st)),
               [Fetch rq])))"

subsection \<open>The prompt\<close>

definition systemPrompt :: jstring where
  "systemPrompt =
     js ''You are a Senior CNCF Architect & Open Source Maintainer. Analyze ''
     @ js ''the given GitHub repository data and provide a comprehensive, structured ''
     @ js ''analysis.\<newline>\<newline>''
     @ js ''You MUST format your response using these exact sections with markdown:\<newline>\<newline>''
     @ js ''## '' @ [0xD83C, 0xDFD7, 0xFE0F] @ js '' Project Overview\<newline>''
     @ js ''Summarize purpose and goals.\<newline>\<newline>'' @ js ''## ''
     @ [0x2699, 0xFE0F] @ js '' Tech Stack Analysis\<newline>''
     @ js ''Identify languages, frameworks, tools.\<newline>\<newline>'' @ js ''## ''
     @ [0xD83E, 0xDDE9] @ js '' Architecture Pattern\<newline>''
     @ js ''Identify: Microservices / Monolith / Operator / CLI / Library / ''
     @ js ''Framework / etc.\<newline>\<newline>'' @ js ''## '' @ [0xD83D, 0xDCCA]
     @ js '' Repository Health Score: X/100\<newline>''
     @ js ''Score 0-100 considering: stars, recent activity, open issues, beginner ''
     @ js ''issues, README quality. Justify clearly.\<newline>\<newline>'' @ js ''## ''
     @ [0xD83D, 0xDC1B] @ js '' Good First Issues\<newline>''
     @ js ''List issues labeled \"good first issue\", \"help wanted\", \"beginner\". ''
     @ js ''If none, say so.\<newline>\<newline>'' @ js ''## '' @ [0xD83C, 0xDFAF]
     @ js '' Contribution Difficulty: [Easy/Medium/Hard]\<newline>''
     @ js ''Explain reasoning.\<newline>\<newline>'' @ js ''## '' @ [0xD83D, 0xDE80]
     @ js '' Open Source Onboarding Plan\<newline>''
     @ js ''Step-by-step beginner guide to contribute to this project.''"

text \<open>\<open>xs.join(sep) || fallback\<close>.\<close>

definition join_or :: "jstring \<Rightarrow> jstring \<Rightarrow> js_value list \<Rightarrow> exn + jstring" where
  "join_or sep fallback xs =
     and_then (join_values sep xs) (\<lambda>s. Inr (if s = [] then fallback else s))"

text \<open>\<open>stats.topics.join(", ")\<close>: only an array has \<open>join\<close>.\<close>

definition topics_text :: "js_value \<Rightarrow> exn + jstring" where
  "topics_text tp =
     (case tp of
        JArr ts \<Rightarrow> join_or (js '', '') (js ''None'') ts
      | _ \<Rightarrow> Inl (TypeError_exn (js ''join'')))"

definition issue_line :: "nat \<Rightarrow> issue \<Rightarrow> exn + jstring" where
  "issue_line idx i =
     template [Inr (decimal (idx + 1)), Inr (js ''. **''), ToString (issue_title i),
               Inr (js ''** '' @ [0x2014] @ js '' Labels: [''),
               join_or (js '', '') (js ''none'') (issue_labels i),
               Inr (js ''] '' @ [0x2014] @ js '' Comments: ''),
               ToString (issue_comments i)]"

definition issues_text :: "issue list \<Rightarrow> exn + jstring" where
  "issues_text issues =
     (if length issues > 0
      then and_then (map_exn (\<lambda>(idx, i). issue_line idx i) (enumerate 0 issues))
             (\<lambda>lines. Inr (str_join [0x0A] lines))
      else Inr (js ''No open issues found.''))"

definition userContent ::
  "js_value \<Rightarrow> js_value \<Rightarrow> stats \<Rightarrow> jstring \<Rightarrow> issue list \<Rightarrow> exn + jstring" where
  "userContent owner repo st readme issues =
     template
       [Inr (js ''Analyze this GitHub repository: **''), ToString owner, Inr (js ''/''),
        ToString repo,
        Inr (js ''**\<newline>\<newline>**Repository Stats:**\<newline>- '' @ [0x2B50] @ js '' Stars: ''),
        ToString (stars st),
        Inr (js ''\<newline>- '' @ [0xD83C, 0xDF74] @ js '' Forks: ''),
        ToString (forks st),
        Inr (js ''\<newline>- '' @ [0xD83D, 0xDC1B] @ js '' Open Issues: ''),
        ToString (open_issues st),
        Inr (js ''\<newline>- '' @ [0xD83D, 0xDCBB] @ js '' Language: ''),
        ToString (language st),
        Inr (js ''\<newline>- '' @ [0xD83D, 0xDCDC] @ js '' License: ''),
        ToString (license st),
        Inr (js ''\<newline>- '' @ [0xD83D, 0xDCC5] @ js '' Last Updated: ''),
        ToString (last_updated st),
        Inr (js ''\<newline>- '' @ [0xD83D, 0xDCDD] @ js '' Description: ''),
        ToString (description st),
        Inr (js ''\<newline>- '' @ [0xD83C, 0xDFF7, 0xFE0F] @ js '' Topics: ''),
        topics_text (topics st),
        Inr (js ''\<newline>\<newline>**README (first 6000 chars):**\<newline>''
             @ [0x60, 0x60, 0x60] @ js ''\<newline>''),
        Inr readme,
        Inr (js ''\<newline>'' @ [0x60, 0x60, 0x60]
             @ js ''\<newline>\<newline>**Open Issues (up to 15):**\<newline>''),
        issues_text issues]"

definition generation_request :: "jstring \<Rightarrow> jstring \<Rightarrow> request" where
  "generation_request key prompt =
     \<lparr>req_url = GATEWAY_URL, req_method = js ''POST'',
      req_headers = [(js ''Authorization'', js ''Bearer '' @ key),
                     (js ''Content-Type'', js ''application/json'')],
      req_body = Some (JObj
        [(js ''model'', JStr (js ''google/gemini-3-flash-preview'')),
         (js ''messages'',
          JArr [JObj [(js ''role'', JStr (js ''system'')), (js ''content'', JStr systemPrompt)],
                JObj [(js ''role'', JStr (js ''user'')), (js ''content'', JStr prompt)]]),
         (js ''stream'', JBool True)])\<rparr>"

subsection \<open>The handler\<close>

definition json_response :: "nat \<Rightarrow> jstring \<Rightarrow> 'b response" where
  "json_response code message =
     \<lparr>status = code,
      headers = corsHeaders @ [(js ''Content-Type'', js ''application/json'')],
      body = Json_body (JObj [(js ''error'', JStr message)])\<rparr>"

text \<open>\<open>const { owner, repo } = ...\<close>: destructuring \<open>null\<close> or \<open>undefined\<close> raises.\<close>

definition destructure :: "js_value \<Rightarrow> exn + js_value \<times> js_value" where
  "destructure v =
     and_then (get_member v (js ''owner'')) (\<lambda>owner.
     and_then (get_member v (js ''repo'')) (\<lambda>repo. Inr (owner, repo)))"

text \<open>
  Lines 165 to 188: the answer of the generation service is turned into the response.
  The result is the response or the exception raised, and the events.
\<close>

definition relay :: "'b http_response \<Rightarrow> (exn + 'b response) \<times> event list" where
  "relay res =
     (if \<not> ok res
      then (if http_status res = 429
            then (Inr (json_response 429 (js ''Rate limit exceeded. Please try again later.'')), [])
            else if http_status res = 402
            then (Inr (json_response 402 (js ''AI usage limit reached. Please add credits.'')), [])
            else (case body_text res of
                    Inl e \<Rightarrow> (Inl e, [])
                  | Inr t \<Rightarrow>
                      (Inr (json_response 500 (js ''AI analysis failed.'')),
                       [Console_error [Log_text (js ''AI gateway error:''),
                                       Log_number (http_status res), Log_text t]])))
      else (Inr \<lparr>status = 200,
                 headers = corsHeaders @ [(js ''Content-Type'', js ''text/event-stream'')],
                 body = Stream_body (body_stream res)\<rparr>, []))"

text \<open>
  Lines 83 to 163, once \<open>owner\<close>, \<open>repo\<close> and the key are known: the three collectors
  are started in the order of the array given to \<open>Promise.all\<close>, then the not-found
  check, the prompt and the call of the generation service.
\<close>

definition analyze ::
  "'b world \<Rightarrow> js_value \<Rightarrow> js_value \<Rightarrow> jstring \<Rightarrow> (exn + 'b response) \<times> event list" where
  "analyze w owner repo key =
     (let (readme, ev1) = fetchReadme w owner repo;
          (issues, ev2) = fetchIssues w owner repo;
          (stats, ev3) = fetchRepoStats w owner repo;
          evs = ev1 @ ev2 @ ev3
      in case stats of
           None \<Rightarrow>
             (case template [Inr (js ''Repository ''), ToString owner, Inr (js ''/''),
                             ToString repo, Inr (js '' not found or inaccessible.'')] of
                Inl e \<Rightarrow> (Inl e, evs)
              | Inr message \<Rightarrow> (Inr (json_response 404 message), evs))
         | Some st \<Rightarrow>
             (case userContent owner repo st readme issues of
                Inl e \<Rightarrow> (Inl e, evs)
              | Inr prompt \<Rightarrow>
                  (let rq = generation_request key prompt
                   in case fetch w rq of
                        Rejected e \<Rightarrow> (Inl e, evs @ [Fetch rq])
                      | Responded res \<Rightarrow>
                          (case relay res of (r, ev4) \<Rightarrow> (r, evs @ [Fetch rq] @ ev4)))))"

text \<open>The body of the \<open>try\<close> (lines 72 to 188).\<close>

definition try_body :: "'b world \<Rightarrow> inbound \<Rightarrow> (exn + 'b response) \<times> event list" where
  "try_body w rq =
     (case and_then (in_json rq) destructure of
        Inl e \<Rightarrow> (Inl e, [])
      | Inr (owner, repo) \<Rightarrow>
          if \<not> ToBoolean owner \<or> \<not> ToBoolean repo
          then (Inr (json_response 400 (js ''Please provide owner and repo'')), [])
          else (case env_get w (js ''LOVABLE_API_KEY'') of
                  None \<Rightarrow>
                    (Inl (Error_exn (js ''LOVABLE_API_KEY is not configured'')),
                     [Env_read (js ''LOVABLE_API_KEY'')])
                | Some key \<Rightarrow>
                    if key = []
                    then (Inl (Error_exn (js ''LOVABLE_API_KEY is not configured'')),
                          [Env_read (js ''LOVABLE_API_KEY'')])
                    else (case analyze w owner repo key of
                            (r, evs) \<Rightarrow> (r, Env_read (js ''LOVABLE_API_KEY'') # evs))))"

text \<open>\<open>e instanceof Error ? e.message : "Unknown error"\<close>.\<close>

definition message_of :: "'b world \<Rightarrow> exn \<Rightarrow> jstring" where
  "message_of w e =
     (case e of
        Error_exn m \<Rightarrow> m
      | TypeError_exn site \<Rightarrow> engine_message w site
      | Thrown_exn \<Rightarrow> js ''Unknown error'')"

definition serve :: "'b world \<Rightarrow> inbound \<Rightarrow> 'b response \<times> event list" where
  "serve w rq =
     (if in_method rq = js ''OPTIONS''
      then (\<lparr>status = 200, headers = corsHeaders, body = Null_body\<rparr>, [])
      else (case try_body w rq of
              (Inr r, evs) \<Rightarrow> (r, evs)
            | (Inl e, evs) \<Rightarrow>
                (json_response 500 (message_of w e),
                 evs @ [Console_error [Log_text (js ''analyze-repo error:''), Log_exn e]])))"

subsection \<open>Notions used to state the aggregator's properties\<close>

text \<open>
  The requests that get as far as the collectors: not a preflight, a body that parses
  and destructures, \<open>owner\<close> and \<open>repo\<close> truthy, and the key configured.
\<close>

definition admitted :: "'b world \<Rightarrow> inbound \<Rightarrow> (js_value \<times> js_value \<times> jstring) option" where
  "admitted w rq =
     (if in_method rq = js ''OPTIONS'' then None
      else (case and_then (in_json rq) destructure of
              Inl e \<Rightarrow> None
            | Inr (owner, repo) \<Rightarrow>
                if \<not> ToBoolean owner \<or> \<not> ToBoolean repo then None
                else (case env_get w (js ''LOVABLE_API_KEY'') of
                        None \<Rightarrow> None
                      | Some key \<Rightarrow> if key = [] then None else Some (owner, repo, key))))"

definition calls_generation :: "event \<Rightarrow> bool" where
  "calls_generation ev = (case ev of Fetch rq \<Rightarrow> req_url rq = GATEWAY_URL | _ \<Rightarrow> False)"

subsection \<open>Example worlds and requests\<close>

text \<open>
  A world whose four endpoints answer as given, with the key configured, and the request
  \<open>POST {owner, repo}\<close>; used to evaluate the handler on concrete inputs.
\<close>

definition reply :: "nat \<Rightarrow> exn + jstring \<Rightarrow> exn + js_value \<Rightarrow> 'b \<Rightarrow> 'b fetch_result" where
  "reply code txt json stream =
     Responded \<lparr>http_status = code, body_text = txt, body_json = json, body_stream = stream\<rparr>"

definition example_world ::
  "'b fetch_result \<Rightarrow> 'b fetch_result \<Rightarrow> 'b fetch_result \<Rightarrow> 'b fetch_result \<Rightarrow> 'b world" where
  "example_world readme issues repo_stats generation =
     \<lparr>env_get = (\<lambda>name. if name = js ''LOVABLE_API_KEY'' then Some (js ''key'') else None),
      fetch = (\<lambda>rq. if req_url rq = GATEWAY_URL then generation
                     else if endsWith (req_url rq) (js ''/readme'') then readme
                     else if endsWith (req_url rq) (js ''per_page=15'') then issues
                     else repo_stats),
      engine_message = (\<lambda>site. js ''TypeError'')\<rparr>"

definition post :: "jstring \<Rightarrow> jstring \<Rightarrow> inbound" where
  "post owner repo =
     \<lparr>in_method = js ''POST'',
      in_json = Inr (JObj [(js ''owner'', JStr owner), (js ''repo'', JStr repo)])\<rparr>"

definition network_down :: "unit fetch_result" where
  "network_down = Rejected (Error_exn (js ''error sending request''))"

definition not_found :: "unit fetch_result" where
  "not_found = reply 404 (Inr (js ''{\"message\":\"Not Found\"}''))
                 (Inr (JObj [(js ''message'', JStr (js ''Not Found''))])) ()"

definition repo_json :: js_value where
  "repo_json =
     JObj [(js ''stargazers_count'', JNum False (js ''42'')),
           (js ''forks_count'', JNum False (js ''7'')),
           (js ''open_issues_count'', JNum True (js ''0'')),
           (js ''language'', JStr (js ''TypeScript'')),
           (js ''license'', JNull),
           (js ''updated_at'', JStr (js ''2026-01-01T00:00:00Z'')),
           (js ''description'', JNull),
           (js ''topics'', JArr [JStr (js ''cli''), JStr (js ''deno'')])]"

definition issue_json :: "jstring \<Rightarrow> js_value" where
  "issue_json t =
     JObj [(js ''title'', JStr t),
           (js ''labels'', JArr [JObj [(js ''name'', JStr (js ''bug''))]]),
           (js ''state'', JStr (js ''open'')),
           (js ''comments'', JNum False (js ''3'')),
           (js ''html_url'', JStr (js ''https://github.com/foo/bar/issues/1''))]"

definition found :: "js_value \<Rightarrow> unit fetch_result" where
  "found json = reply 200 (Inr []) (Inr json) ()"

definition readme_found :: "jstring \<Rightarrow> unit fetch_result" where
  "readme_found txt = reply 200 (Inr txt) (Inl (Error_exn (js ''SyntaxError''))) ()"

subsection \<open>What a failed source leaves in the prompt\<close>

text \<open>
  The text \<open>fetchReadme\<close> returns for each outcome of its request, and the outcomes of
  the issues request for which \<open>fetchIssues\<close> has nothing to return: a network error, a
  non-success status, a body that is not JSON or not an array of issue objects.
\<close>

definition readme_text :: "'b fetch_result \<Rightarrow> jstring" where
  "readme_text r =
     (case r of
        Rejected e \<Rightarrow> js ''Failed to fetch README.''
      | Responded res \<Rightarrow>
          if ok res
          then (case body_text res of
                  Inl e \<Rightarrow> js ''Failed to fetch README.''
                | Inr t \<Rightarrow> take 6000 t)
          else js ''README not found.'')"

definition issues_unavailable :: "'b fetch_result \<Rightarrow> bool" where
  "issues_unavailable r =
     (case r of
        Rejected e \<Rightarrow> True
      | Responded res \<Rightarrow>
          if ok res
          then (case and_then (body_json res) summarize_issues of
                  Inl e \<Rightarrow> True
                | Inr summaries \<Rightarrow> False)
          else True)"

text \<open>
  The prompt for \<open>foo/bar\<close> with the statistics \<open>repo_json\<close>, one open issue, and a
  readme request that failed on the network.
\<close>

definition prompt_after_network_error :: jstring where
  "prompt_after_network_error =
     js ''Analyze this GitHub repository: **foo/bar**\<newline>\<newline>''
     @ js ''**Repository Stats:**\<newline>'' @ js ''- '' @ [0x2B50]
     @ js '' Stars: 42\<newline>'' @ js ''- '' @ [0xD83C, 0xDF74]
     @ js '' Forks: 7\<newline>'' @ js ''- '' @ [0xD83D, 0xDC1B]
     @ js '' Open Issues: 0\<newline>'' @ js ''- '' @ [0xD83D, 0xDCBB]
     @ js '' Language: TypeScript\<newline>'' @ js ''- '' @ [0xD83D, 0xDCDC]
     @ js '' License: None\<newline>'' @ js ''- '' @ [0xD83D, 0xDCC5]
     @ js '' Last Updated: 2026-01-01T00:00:00Z\<newline>'' @ js ''- '' @ [0xD83D, 0xDCDD]
     @ js '' Description: null\<newline>'' @ js ''- '' @ [0xD83C, 0xDFF7, 0xFE0F]
     @ js '' Topics: cli, deno\<newline>\<newline>''
     @ js ''**README (first 6000 chars):**\<newline>'' @ [0x0060, 0x0060, 0x0060]
     @ js ''\<newline>'' @ js ''Failed to fetch README.\<newline>''
     @ [0x0060, 0x0060, 0x0060] @ js ''\<newline>\<newline>''
     @ js ''**Open Issues (up to 15):**\<newline>'' @ js ''1. **Crash on start** ''
     @ [0x2014] @ js '' Labels: [bug] '' @ [0x2014] @ js '' Comments: 3''"

section \<open>Properties of the segmenter\<close>

lemma segment_line_leading:
  assumes "h2Match line = None"
  shows "segment_line (leading_sections acc, None) line
         = (leading_sections (acc @ (if trim line \<noteq> [] then [line] else [])), None)"
  using assms by (cases "acc = []") (simp_all add: segment_line_def leading_sections_def)

lemma foldl_segment_leading:
  assumes "list_all (\<lambda>line. h2Match line = None) ls"
  shows "foldl segment_line (leading_sections acc, None) ls
         = (leading_sections (acc @ filter (\<lambda>line. trim line \<noteq> []) ls), None)"
  using assms
proof (induction ls arbitrary: acc)
  case Nil
  then show ?case by simp
next
  case (Cons l ls)
  then have h: "h2Match l = None" and rest: "list_all (\<lambda>line. h2Match line = None) ls"
    by simp_all
  show ?case
    using Cons.IH [OF rest, of "acc @ (if trim l \<noteq> [] then [l] else [])"]
    by (simp add: segment_line_leading [OF h])
qed

lemmas str_defs = js_def trim_def startsWith_def endsWith_def is_white_def
  is_line_terminator_def

lemmas seg_defs = parseSections_def segment_line_def h2Match_def no_heading_def
  leading_sections_def nonblank_lines_def clipboard_icon_def page_icon_def dot_plus_def
  after_symbol_def symbol_at_def close_heading_def icon_for_def sectionIcons_def

lemma parseSections_empty: "parseSections [] = []"
  by (simp add: str_defs seg_defs)

text \<open>
  C4 (as amended). Segmenting the empty string gives no section. For a text with no
  heading line the result is decided by its non-blank lines: when every line is blank
  (whitespace only) there is no section at all; otherwise there is exactly one section,
  with the fixed icon and the empty title, whose body is the non-blank lines in order,
  each followed by a newline. Blank lines are not part of the body.
\<close>

theorem parseSections_without_heading:
  "parseSections [] = []
   \<and> (no_heading md \<longrightarrow> parseSections md = leading_sections (nonblank_lines md))"
proof -
  have "foldl segment_line ([], None) (str_split 0x0A md)
        = (leading_sections (nonblank_lines md), None)"
    if "no_heading md"
    using foldl_segment_leading [of "str_split 0x0A md" "[]"] that
    by (simp add: no_heading_def nonblank_lines_def leading_sections_def)
  then show ?thesis
    by (simp add: parseSections_empty) (simp add: parseSections_def)
qed

theorem parseSections_without_heading_witness:
  "no_heading (js ''intro\<newline>\<newline>more'')
   \<and> parseSections (js ''intro\<newline>\<newline>more'')
       = [\<lparr>icon = clipboard_icon, title = [], content = js ''intro\<newline>more\<newline>''\<rparr>]"
proof -
  have nh: "no_heading (js ''intro\<newline>\<newline>more'')"
    by (simp add: str_defs seg_defs)
  have "leading_sections (nonblank_lines (js ''intro\<newline>\<newline>more''))
        = [\<lparr>icon = clipboard_icon, title = [], content = js ''intro\<newline>more\<newline>''\<rparr>]"
    by (simp add: str_defs seg_defs)
  with nh parseSections_without_heading [of "js ''intro\<newline>\<newline>more''"]
  show ?thesis by simp
qed

text \<open>
  C4 as stated fails: a text of one space is not empty and has no heading line, yet it
  yields no section; and the body built from a text with a blank line does not contain
  that text.
\<close>

theorem parseSections_blank_counterexample:
  "js '' '' \<noteq> [] \<and> no_heading (js '' '') \<and> parseSections (js '' '') = []
   \<and> no_heading (js ''a\<newline>\<newline>b'')
   \<and> parseSections (js ''a\<newline>\<newline>b'')
       = [\<lparr>icon = clipboard_icon, title = [], content = js ''a\<newline>b\<newline>''\<rparr>]
   \<and> \<not> str_includes (js ''a\<newline>b\<newline>'') (js ''a\<newline>\<newline>b'')"
  by (simp add: str_defs seg_defs)

section \<open>Properties of the frame decoder\<close>

subsection \<open>Lines of a text\<close>

lemma str_split_not_Nil: "str_split c s \<noteq> []"
  by (cases s) (auto split: list.splits)

lemma complete_lines_no_newline: "0x0A \<notin> set s \<Longrightarrow> complete_lines s = []"
  by (induction s) (auto simp: complete_lines_def split: list.splits)

lemma str_split_line:
  "0x0A \<notin> set l \<Longrightarrow> str_split 0x0A (l @ 0x0A # r) = l # str_split 0x0A r"
  by (induction l) auto

lemma complete_lines_line:
  "0x0A \<notin> set l \<Longrightarrow> complete_lines (l @ 0x0A # r) = l # complete_lines r"
  by (simp add: complete_lines_def str_split_line str_split_not_Nil)

lemma complete_lines_unlines:
  "newline_free ls \<Longrightarrow> complete_lines (unlines ls @ b) = ls @ complete_lines b"
  by (induction ls) (simp_all add: unlines_def newline_free_def complete_lines_line)

lemma text_decomposition:
  "\<exists>ls t. s = unlines ls @ t \<and> newline_free ls \<and> 0x0A \<notin> set t"
proof (induction s)
  case Nil
  have "[] = unlines [] @ [] \<and> newline_free [] \<and> 0x0A \<notin> set ([] :: jstring)"
    by (simp add: unlines_def newline_free_def)
  then show ?case by blast
next
  case (Cons c s)
  then obtain ls t where s: "s = unlines ls @ t" and nf: "newline_free ls"
    and t: "0x0A \<notin> set t"
    by blast
  show ?case
  proof (cases "c = 0x0A")
    case True
    have "c # s = unlines ([] # ls) @ t \<and> newline_free ([] # ls) \<and> 0x0A \<notin> set t"
      using s nf t True by (simp add: unlines_def newline_free_def)
    then show ?thesis by blast
  next
    case False
    show ?thesis
    proof (cases ls)
      case Nil
      have "c # s = unlines [] @ (c # t) \<and> newline_free [] \<and> 0x0A \<notin> set (c # t)"
        using s t False Nil by (simp add: unlines_def newline_free_def)
      then show ?thesis by blast
    next
      case (Cons l ls')
      have "c # s = unlines ((c # l) # ls') @ t \<and> newline_free ((c # l) # ls')
            \<and> 0x0A \<notin> set t"
        using s nf t False Cons by (simp add: unlines_def newline_free_def)
      then show ?thesis by blast
    qed
  qed
qed

subsection \<open>One pass of the inner loop\<close>

lemma indexOf_none: "0x0A \<notin> set b \<Longrightarrow> indexOf b 0x0A = None"
  by (simp add: indexOf_def)

lemma indexOf_line: "0x0A \<notin> set l \<Longrightarrow> indexOf (l @ 0x0A # r) 0x0A = Some (length l)"
proof -
  assume "0x0A \<notin> set l"
  then have "takeWhile (\<lambda>x. x \<noteq> 0x0A) (l @ 0x0A # r) = l"
    by (induction l) auto
  then show ?thesis
    by (simp add: indexOf_def)
qed

lemma drain_no_newline: "0x0A \<notin> set (buffer st) \<Longrightarrow> drain parse st = st"
  by (subst drain.simps) (simp add: indexOf_none)

lemma drain_line:
  assumes "buffer st = l @ 0x0A # r" and "0x0A \<notin> set l"
  shows "drain parse st =
     (case data_payload l of
        None \<Rightarrow> drain parse (st\<lparr>buffer := r\<rparr>)
      | Some p \<Rightarrow>
          if p = js ''[DONE]'' then st\<lparr>buffer := r\<rparr>
          else (case decode_frame parse p of
                  Inl e \<Rightarrow>
                    st\<lparr>buffer := (if endsWith l [0x0D] then butlast l else l) @ [0x0A] @ r\<rparr>
                | Inr None \<Rightarrow> drain parse (st\<lparr>buffer := r\<rparr>)
                | Inr (Some s) \<Rightarrow>
                    drain parse
                      (st\<lparr>buffer := r,
                          result := result st @ s,
                          shown := shown st @ [result st @ s],
                          emitted := emitted st @ [s]\<rparr>)))"
  by (subst drain.simps)
     (simp add: assms indexOf_line data_payload_def Let_def split: sum.splits option.splits)


subsection \<open>Frames of a list of lines\<close>

lemma frame_deltas_after_sentinel:
  "has_sentinel xs \<Longrightarrow> frame_deltas parse (xs @ ys) = frame_deltas parse xs"
  by (induction xs) (auto simp: has_sentinel_def split: option.splits sum.splits)

lemma frame_deltas_append:
  "\<not> has_sentinel xs \<Longrightarrow> valid_lines parse xs \<Longrightarrow>
   frame_deltas parse (xs @ ys) = frame_deltas parse xs @ frame_deltas parse ys"
  by (induction xs) (auto simp: has_sentinel_def split: option.splits sum.splits if_splits)

lemma quiet_valid: "quiet ys \<Longrightarrow> valid_lines parse ys"
  by (induction ys) (auto simp: quiet_def)

lemma quiet_frame_deltas: "quiet ys \<Longrightarrow> frame_deltas parse ys = []"
  by (induction ys) (auto simp: quiet_def)

lemma quiet_append: "quiet (xs @ ys) \<longleftrightarrow> quiet xs \<and> quiet ys"
  by (simp add: quiet_def)

lemma valid_lines_prefix: "valid_lines parse (xs @ ys) \<Longrightarrow> valid_lines parse xs"
  by (induction xs) (auto split: option.splits sum.splits if_splits)

lemma valid_lines_suffix:
  "valid_lines parse (xs @ ys) \<Longrightarrow> \<not> has_sentinel xs \<Longrightarrow> valid_lines parse ys"
  by (induction xs) (auto simp: has_sentinel_def split: option.splits sum.splits if_splits)

lemma valid_lines_after_sentinel:
  "valid_lines parse (xs @ ys) \<Longrightarrow> has_sentinel xs \<Longrightarrow> quiet ys"
  by (induction xs) (auto simp: has_sentinel_def quiet_def split: option.splits sum.splits if_splits)

lemma has_sentinel_append: "has_sentinel (xs @ ys) \<longleftrightarrow> has_sentinel xs \<or> has_sentinel ys"
  by (simp add: has_sentinel_def)

lemma running_texts_append:
  "running_texts acc (xs @ ys) = running_texts acc xs @ running_texts (acc @ concat xs) ys"
  by (induction xs arbitrary: acc) simp_all

subsection \<open>The accumulated report is the concatenation of the deltas\<close>

lemma report_inv_buffer [simp]: "report_inv (st\<lparr>buffer := b\<rparr>) = report_inv st"
  by (simp add: report_inv_def)

lemma report_inv_append:
  "report_inv st \<Longrightarrow>
   report_inv (st\<lparr>buffer := b, result := result st @ s,
                   shown := shown st @ [result st @ s],
                   emitted := emitted st @ [s]\<rparr>)"
  by (simp add: report_inv_def running_texts_append)

lemma drain_lines_report_inv:
  "buffer st = unlines ls @ t \<Longrightarrow> newline_free ls \<Longrightarrow> 0x0A \<notin> set t \<Longrightarrow>
   report_inv st \<Longrightarrow> report_inv (drain parse st)"
proof (induction ls arbitrary: st)
  case Nil
  then show ?case
    by (simp add: unlines_def drain_no_newline)
next
  case (Cons l ls)
  from Cons.prems have buf: "buffer st = l @ 0x0A # (unlines ls @ t)"
    and l: "0x0A \<notin> set l" and nf: "newline_free ls"
    by (simp_all add: unlines_def newline_free_def)
  have step: "report_inv (drain parse st')"
    if "buffer st' = unlines ls @ t" and "report_inv st'" for st'
    using Cons.IH [OF that(1) nf Cons.prems(3) that(2)] .
  show ?case
    by (subst drain_line [OF buf l])
       (auto simp: Cons.prems(4) report_inv_append intro!: step
             split: option.splits sum.splits)
qed

lemma drain_report_inv: "report_inv st \<Longrightarrow> report_inv (drain parse st)"
  using text_decomposition [of "buffer st"] drain_lines_report_inv by blast

lemma read_stream_snoc:
  "read_stream parse (cs @ [c]) = feed parse (read_stream parse cs) c"
  by (simp add: read_stream_def)

lemma read_stream_report_inv: "report_inv (read_stream parse cs)"
proof (induction cs rule: rev_induct)
  case Nil
  show ?case
    by (simp add: read_stream_def fresh_decoder_def report_inv_def)
next
  case (snoc c cs)
  then show ?case
    by (simp add: read_stream_snoc feed_def drain_report_inv)
qed

subsection \<open>Draining a buffer whose lines form a valid stream\<close>

lemma drain_lines_valid:
  "buffer st = unlines xs @ t \<Longrightarrow> newline_free xs \<Longrightarrow> 0x0A \<notin> set t \<Longrightarrow>
   valid_lines parse xs \<Longrightarrow>
   \<exists>ls. newline_free ls \<and> buffer st = unlines ls @ buffer (drain parse st)
        \<and> emitted (drain parse st) = emitted st @ frame_deltas parse ls
        \<and> (has_sentinel ls \<or> 0x0A \<notin> set (buffer (drain parse st)))"
proof (induction xs arbitrary: st)
  case Nil
  then have "drain parse st = st" and "0x0A \<notin> set (buffer st)"
    by (simp_all add: unlines_def drain_no_newline)
  then have "newline_free [] \<and> buffer st = unlines [] @ buffer (drain parse st)
        \<and> emitted (drain parse st) = emitted st @ frame_deltas parse []
        \<and> (has_sentinel [] \<or> 0x0A \<notin> set (buffer (drain parse st)))"
    by (simp add: unlines_def newline_free_def)
  then show ?case by blast
next
  case (Cons l xs)
  define r where "r = unlines xs @ t"
  from Cons.prems have buf: "buffer st = l @ 0x0A # r"
    and l: "0x0A \<notin> set l" and nf: "newline_free xs"
    by (simp_all add: unlines_def newline_free_def r_def)
  note step = drain_line [OF buf l, of parse]
  have rec: "\<exists>ls. newline_free ls \<and> buffer st = unlines ls @ buffer (drain parse st')
        \<and> emitted (drain parse st') = emitted st @ frame_deltas parse ls
        \<and> (has_sentinel ls \<or> 0x0A \<notin> set (buffer (drain parse st')))"
    if st': "buffer st' = r" and v: "valid_lines parse xs"
      and e: "\<And>ls'. emitted st' @ frame_deltas parse ls'
                   = emitted st @ frame_deltas parse (l # ls')"
    for st'
  proof -
    from Cons.IH [OF st' [unfolded r_def] nf Cons.prems(3) v]
    obtain ls' where ls': "newline_free ls'" "buffer st' = unlines ls' @ buffer (drain parse st')"
      "emitted (drain parse st') = emitted st' @ frame_deltas parse ls'"
      "has_sentinel ls' \<or> 0x0A \<notin> set (buffer (drain parse st'))"
      by blast
    have "newline_free (l # ls')
        \<and> buffer st = unlines (l # ls') @ buffer (drain parse st')
        \<and> emitted (drain parse st') = emitted st @ frame_deltas parse (l # ls')
        \<and> (has_sentinel (l # ls') \<or> 0x0A \<notin> set (buffer (drain parse st')))"
      using ls' l buf st' e [of ls']
      by (auto simp: newline_free_def unlines_def has_sentinel_def)
    then show ?thesis by blast
  qed
  show ?case
  proof (cases "data_payload l")
    case None
    then have d: "drain parse st = drain parse (st\<lparr>buffer := r\<rparr>)"
      using step by simp
    have "valid_lines parse xs"
      using Cons.prems(4) None by simp
    then show ?thesis
      unfolding d using None by (intro rec) simp_all
  next
    case (Some p)
    show ?thesis
    proof (cases "p = js ''[DONE]''")
      case True
      then have d: "drain parse st = st\<lparr>buffer := r\<rparr>"
        using step Some by simp
      have "newline_free [l] \<and> buffer st = unlines [l] @ buffer (drain parse st)
        \<and> emitted (drain parse st) = emitted st @ frame_deltas parse [l]
        \<and> (has_sentinel [l] \<or> 0x0A \<notin> set (buffer (drain parse st)))"
        using d buf l Some True by (simp add: newline_free_def unlines_def has_sentinel_def)
      then show ?thesis by blast
    next
      case False
      show ?thesis
      proof (cases "decode_frame parse p")
        case (Inl e)
        then show ?thesis
          using Cons.prems(4) Some False by simp
      next
        case (Inr c)
        have v: "valid_lines parse xs"
          using Cons.prems(4) Some False Inr by simp
        show ?thesis
        proof (cases c)
          case None
          then have d: "drain parse st = drain parse (st\<lparr>buffer := r\<rparr>)"
            using step Some False Inr by simp
          show ?thesis
            unfolding d using Some False Inr None v by (intro rec) simp_all
        next
          case (Some s)
          then have d: "drain parse st =
              drain parse (st\<lparr>buffer := r, result := result st @ s,
                              shown := shown st @ [result st @ s],
                              emitted := emitted st @ [s]\<rparr>)"
            using step \<open>data_payload l = Some p\<close> False Inr by simp
          show ?thesis
            unfolding d using \<open>data_payload l = Some p\<close> False Inr Some v
            by (intro rec) simp_all
        qed
      qed
    qed
  qed
qed

subsection \<open>Reading a valid stream chunk by chunk\<close>

lemma valid_frame_stream_prefix:
  assumes "valid_frame_stream parse (a @ b)"
  shows "valid_frame_stream parse a"
proof -
  obtain ls t where a: "a = unlines ls @ t" and nf: "newline_free ls" and t: "0x0A \<notin> set t"
    using text_decomposition [of a] by blast
  have "complete_lines (a @ b) = ls @ complete_lines (t @ b)"
    using complete_lines_unlines [OF nf, of "t @ b"] a by simp
  moreover have "complete_lines a = ls"
    using complete_lines_unlines [OF nf, of t] a t by (simp add: complete_lines_no_newline)
  ultimately show ?thesis
    using assms valid_lines_prefix by (simp add: valid_frame_stream_def)
qed

lemma stream_inv_deltas:
  assumes "stream_inv parse st s"
  shows "emitted st = frame_deltas parse (complete_lines s)"
proof -
  from assms obtain ls where nf: "newline_free ls" and s: "s = unlines ls @ buffer st"
    and e: "emitted st = frame_deltas parse ls"
    and c: "has_sentinel ls \<or> 0x0A \<notin> set (buffer st)"
    by (auto simp: stream_inv_def)
  have lines: "complete_lines s = ls @ complete_lines (buffer st)"
    using complete_lines_unlines [OF nf] s by simp
  from c show ?thesis
  proof
    assume "has_sentinel ls"
    then show ?thesis
      using e lines by (simp add: frame_deltas_after_sentinel)
  next
    assume "0x0A \<notin> set (buffer st)"
    then show ?thesis
      using e lines by (simp add: complete_lines_no_newline)
  qed
qed

lemma feed_stream_inv:
  assumes inv: "stream_inv parse st s" and valid: "valid_frame_stream parse (s @ c)"
  shows "stream_inv parse (feed parse st c) (s @ c)"
proof -
  from inv obtain ls where nf: "newline_free ls" and s: "s = unlines ls @ buffer st"
    and e: "emitted st = frame_deltas parse ls"
    and cl: "has_sentinel ls \<or> 0x0A \<notin> set (buffer st)"
    by (auto simp: stream_inv_def)
  define st0 where "st0 = st\<lparr>buffer := buffer st @ c\<rparr>"
  have fd: "feed parse st c = drain parse st0"
    by (simp add: feed_def st0_def)
  obtain xs t where b: "buffer st0 = unlines xs @ t" and nfx: "newline_free xs"
    and t: "0x0A \<notin> set t"
    using text_decomposition [of "buffer st0"] by blast
  have lines0: "complete_lines (buffer st0) = xs"
    using complete_lines_unlines [OF nfx, of t] b t by (simp add: complete_lines_no_newline)
  have sc: "s @ c = unlines ls @ buffer st0"
    using s by (simp add: st0_def)
  have lines: "complete_lines (s @ c) = ls @ xs"
    using complete_lines_unlines [OF nf, of "buffer st0"] sc lines0 by simp
  have v: "valid_lines parse (ls @ xs)"
    using valid lines by (simp add: valid_frame_stream_def)
  have vls: "valid_lines parse ls"
    using v by (rule valid_lines_prefix)
  have vxs: "valid_lines parse xs"
  proof (cases "has_sentinel ls")
    case True
    then show ?thesis
      using valid_lines_after_sentinel [OF v] quiet_valid by blast
  next
    case False
    then show ?thesis
      using valid_lines_suffix [OF v] by blast
  qed
  from drain_lines_valid [OF b nfx t vxs]
  obtain ls2 where nf2: "newline_free ls2"
    and b2: "buffer st0 = unlines ls2 @ buffer (drain parse st0)"
    and e2: "emitted (drain parse st0) = emitted st0 @ frame_deltas parse ls2"
    and c2: "has_sentinel ls2 \<or> 0x0A \<notin> set (buffer (drain parse st0))"
    by blast
  have xs2: "xs = ls2 @ complete_lines (buffer (drain parse st0))"
    using complete_lines_unlines [OF nf2, of "buffer (drain parse st0)"] b2 lines0 by simp
  have deltas: "frame_deltas parse ls @ frame_deltas parse ls2 = frame_deltas parse (ls @ ls2)"
  proof (cases "has_sentinel ls")
    case True
    then have "quiet xs"
      using valid_lines_after_sentinel [OF v] by blast
    then have "quiet ls2"
      using xs2 quiet_append [of ls2 "complete_lines (buffer (drain parse st0))"] by simp
    then show ?thesis
      using True by (simp add: quiet_frame_deltas frame_deltas_after_sentinel)
  next
    case False
    then show ?thesis
      using vls by (simp add: frame_deltas_append)
  qed
  have "newline_free (ls @ ls2)
        \<and> s @ c = unlines (ls @ ls2) @ buffer (drain parse st0)
        \<and> emitted (drain parse st0) = frame_deltas parse (ls @ ls2)
        \<and> (has_sentinel (ls @ ls2) \<or> 0x0A \<notin> set (buffer (drain parse st0)))"
    using nf nf2 sc b2 e2 e c2 deltas
    by (auto simp: newline_free_def unlines_def has_sentinel_append st0_def)
  then show ?thesis
    unfolding fd stream_inv_def by blast
qed

lemma read_stream_inv:
  "valid_frame_stream parse (concat cs) \<Longrightarrow>
   stream_inv parse (read_stream parse cs) (concat cs)"
proof (induction cs rule: rev_induct)
  case Nil
  have "newline_free [] \<and> [] = unlines [] @ buffer fresh_decoder
        \<and> emitted fresh_decoder = frame_deltas parse []
        \<and> (has_sentinel [] \<or> 0x0A \<notin> set (buffer fresh_decoder))"
    by (simp add: newline_free_def unlines_def fresh_decoder_def)
  then show ?case
    unfolding stream_inv_def read_stream_def by auto
next
  case (snoc c cs)
  from snoc.prems have v: "valid_frame_stream parse (concat cs @ c)"
    by simp
  then have "valid_frame_stream parse (concat cs)"
    by (rule valid_frame_stream_prefix)
  then have "stream_inv parse (read_stream parse cs) (concat cs)"
    by (rule snoc.IH)
  from feed_stream_inv [OF this v] show ?case
    by (simp add: read_stream_snoc)
qed

lemma read_stream_deltas:
  "valid_frame_stream parse (concat cs) \<Longrightarrow>
   emitted (read_stream parse cs) = frame_deltas parse (complete_lines (concat cs))"
  using read_stream_inv stream_inv_deltas by blast

subsection \<open>Lines that cannot be decoded\<close>





lemma frame_deltas_halts:
  "halts parse xs \<Longrightarrow> frame_deltas parse (xs @ ys) = frame_deltas parse xs"
  by (induction xs)
     (auto simp: halts_def has_sentinel_def stuck_def split: option.splits sum.splits)






lemma valid_lines_sentinel_is_last: "valid_lines parse ls \<Longrightarrow> sentinel_is_last ls"
  by (induction ls) (auto simp: quiet_def split: option.splits sum.splits if_splits)

subsection \<open>One pass of the inner loop, on any buffer\<close>





subsection \<open>The chunks of any stream whose sentinel comes last\<close>











subsection \<open>The claims about the decoder\<close>

lemmas decode_defs = decode_frame_def delta_content_def and_then_def get_member_def
  opt_member_def opt_first_def nullish_def ToBoolean_def parse_delta_json_def delta_json_def

lemmas stream_defs = read_stream_def feed_def fresh_decoder_def indexOf_def Let_def
  valid_frame_stream_def complete_lines_def data_payload_def

text \<open>
  C1. For chunks that concatenate to a valid frame stream, reading them one by one
  yields the same text deltas in the same order, the same accumulated report and the
  same sequence of displayed reports as reading their concatenation as one chunk,
  wherever the chunk boundaries fall.
\<close>

theorem chunk_boundary_invariance:
  assumes "valid_frame_stream parse (concat chunks)"
  shows "emitted (read_stream parse chunks) = emitted (read_stream parse [concat chunks])
       \<and> result (read_stream parse chunks) = result (read_stream parse [concat chunks])
       \<and> shown (read_stream parse chunks) = shown (read_stream parse [concat chunks])"
proof -
  have "emitted (read_stream parse chunks) = frame_deltas parse (complete_lines (concat chunks))"
    using assms by (rule read_stream_deltas)
  moreover have "emitted (read_stream parse [concat chunks])
                 = frame_deltas parse (complete_lines (concat chunks))"
    using assms read_stream_deltas [of parse "[concat chunks]"] by simp
  ultimately have "emitted (read_stream parse chunks) = emitted (read_stream parse [concat chunks])"
    by simp
  then show ?thesis
    using read_stream_report_inv [of parse chunks]
      read_stream_report_inv [of parse "[concat chunks]"]
    by (simp add: report_inv_def)
qed

theorem chunk_boundary_invariance_witness:
  "valid_frame_stream parse_delta_json
     (concat [js ''da'', js ''ta: {\"choices\":[{\"delta\":{\"content\":\"He'',
              js ''\"}}]}\<newline>'', js ''data: {\"choices\":[{\"delta\":{\"content\":\"llo\"}}]}'',
              [0x0D, 0x0A, 0x0A], js ''data: [DONE]\<newline>''])
   \<and> emitted (read_stream parse_delta_json
        [js ''da'', js ''ta: {\"choices\":[{\"delta\":{\"content\":\"He'',
         js ''\"}}]}\<newline>'', js ''data: {\"choices\":[{\"delta\":{\"content\":\"llo\"}}]}'',
         [0x0D, 0x0A, 0x0A], js ''data: [DONE]\<newline>''])
     = emitted (read_stream parse_delta_json
        [concat [js ''da'', js ''ta: {\"choices\":[{\"delta\":{\"content\":\"He'',
                 js ''\"}}]}\<newline>'', js ''data: {\"choices\":[{\"delta\":{\"content\":\"llo\"}}]}'',
                 [0x0D, 0x0A, 0x0A], js ''data: [DONE]\<newline>'']])
   \<and> emitted (read_stream parse_delta_json
        [js ''da'', js ''ta: {\"choices\":[{\"delta\":{\"content\":\"He'',
         js ''\"}}]}\<newline>'', js ''data: {\"choices\":[{\"delta\":{\"content\":\"llo\"}}]}'',
         [0x0D, 0x0A, 0x0A], js ''data: [DONE]\<newline>''])
     = [js ''He'', js ''llo'']"
proof -
  let ?chunks = "[js ''da'', js ''ta: {\"choices\":[{\"delta\":{\"content\":\"He'',
         js ''\"}}]}\<newline>'', js ''data: {\"choices\":[{\"delta\":{\"content\":\"llo\"}}]}'',
         [0x0D, 0x0A, 0x0A], js ''data: [DONE]\<newline>'']"
  have v: "valid_frame_stream parse_delta_json (concat ?chunks)"
    by (simp add: stream_defs str_defs decode_defs)
  have e: "emitted (read_stream parse_delta_json ?chunks) = [js ''He'', js ''llo'']"
    by (simp add: stream_defs str_defs decode_defs drain.simps)
  from chunk_boundary_invariance [OF v] v e show ?thesis
    by simp
qed




text \<open>
  C3 does not hold of the read loop: the \<open>break\<close> at the sentinel leaves the inner loop
  only, and the outer loop goes on reading. A data frame that arrives after the sentinel
  is decoded and appended when the next chunk comes: in a later chunk, or in the same chunk
  as the sentinel once any further chunk arrives.
\<close>

theorem delta_after_sentinel_is_emitted:
  "emitted (read_stream parse_delta_json
      [js ''data: [DONE]\<newline>'',
       js ''data: {\"choices\":[{\"delta\":{\"content\":\"late\"}}]}\<newline>''])
     = [js ''late'']
   \<and> emitted (read_stream parse_delta_json
      [js ''data: [DONE]\<newline>data: {\"choices\":[{\"delta\":{\"content\":\"late\"}}]}\<newline>''])
     = []
   \<and> emitted (read_stream parse_delta_json
      [js ''data: [DONE]\<newline>data: {\"choices\":[{\"delta\":{\"content\":\"late\"}}]}\<newline>'',
       js ''\<newline>''])
     = [js ''late'']"
  by (simp add: stream_defs str_defs decode_defs drain.simps)

section \<open>Properties of the aggregator\<close>

subsection \<open>Requests to GitHub are not requests to the generation service\<close>

lemma github_url_not_gateway: "GITHUB_API @ x \<noteq> GATEWAY_URL"
  by (simp add: GITHUB_API_def GATEWAY_URL_def js_def)

subsection \<open>The collectors never call the generation service\<close>

lemma get_request_url [simp]: "req_url (get_request url accept) = url"
  by (simp add: get_request_def)

lemma fetchReadme_events:
  "\<not> list_ex calls_generation (snd (fetchReadme w owner repo))"
  by (auto simp: fetchReadme_def calls_generation_def Let_def
                  github_url_not_gateway split: sum.splits)

lemma fetchIssues_events:
  "\<not> list_ex calls_generation (snd (fetchIssues w owner repo))"
  by (auto simp: fetchIssues_def calls_generation_def Let_def
           simp: github_url_not_gateway split: sum.splits)

lemma fetchRepoStats_events:
  "\<not> list_ex calls_generation (snd (fetchRepoStats w owner repo))"
  by (auto simp: fetchRepoStats_def calls_generation_def Let_def
           simp: github_url_not_gateway split: sum.splits)

lemma relay_events: "\<not> list_ex calls_generation (snd (relay res))"
  by (auto simp: relay_def calls_generation_def split: sum.splits)

lemmas js_ops = and_then_def get_member_def opt_member_def opt_first_def nullish_def ToBoolean_def

lemmas example_defs = example_world_def post_def reply_def network_down_def not_found_def
  repo_json_def issue_json_def found_def readme_found_def

subsection \<open>Validation of the inbound request\<close>

text \<open>
  C10 (as amended). A request that is not a preflight (its method is not \<open>OPTIONS\<close>)
  and whose JSON body is an object whose \<open>owner\<close> or \<open>repo\<close> is the empty string, or is
  absent, gets status 400 with the one fixed message, and the handler has done nothing
  before answering: it has not read the credential and has issued no request.
\<close>

theorem empty_or_absent_field_rejected:
  assumes "in_method rq \<noteq> js ''OPTIONS''"
    and "in_json rq = Inr (JObj props)"
    and "map_of props (js ''owner'') = Some (JStr []) \<or> map_of props (js ''repo'') = Some (JStr [])
         \<or> map_of props (js ''owner'') = None \<or> map_of props (js ''repo'') = None"
  shows "serve w rq = (json_response 400 (js ''Please provide owner and repo''), [])"
  using assms
  by (auto simp: serve_def try_body_def destructure_def js_ops split: option.splits)

theorem empty_or_absent_field_rejected_witness:
  "in_method (post [] (js ''bar'')) \<noteq> js ''OPTIONS''
   \<and> in_json (post [] (js ''bar''))
       = Inr (JObj [(js ''owner'', JStr []), (js ''repo'', JStr (js ''bar''))])
   \<and> map_of [(js ''owner'', JStr []), (js ''repo'', JStr (js ''bar''))] (js ''owner'')
       = Some (JStr [])
   \<and> serve (example_world network_down network_down network_down network_down)
         (post [] (js ''bar''))
       = (json_response 400 (js ''Please provide owner and repo''), [])"
proof -
  have m: "in_method (post [] (js ''bar'')) \<noteq> js ''OPTIONS''"
    by (simp add: post_def js_def)
  have j: "in_json (post [] (js ''bar''))
           = Inr (JObj [(js ''owner'', JStr []), (js ''repo'', JStr (js ''bar''))])"
    by (simp add: post_def)
  have f: "map_of [(js ''owner'', JStr []), (js ''repo'', JStr (js ''bar''))] (js ''owner'')
           = Some (JStr [])"
    by simp
  from empty_or_absent_field_rejected [OF m j, of "example_world network_down network_down network_down network_down"] f m j
  show ?thesis by simp
qed

text \<open>
  C10 as stated fails for a preflight: a request with method \<open>OPTIONS\<close> is answered
  before its body is read, with status 200 and no body, even when the body carries an
  empty \<open>owner\<close>.
\<close>

theorem preflight_empty_owner_counterexample:
  "in_json (post [] (js ''bar'')\<lparr>in_method := js ''OPTIONS''\<rparr>)
     = Inr (JObj [(js ''owner'', JStr []), (js ''repo'', JStr (js ''bar''))])
   \<and> serve (example_world network_down network_down network_down network_down)
        (post [] (js ''bar'')\<lparr>in_method := js ''OPTIONS''\<rparr>)
     = (\<lparr>status = 200, headers = corsHeaders, body = Null_body\<rparr>, [])"
  by (simp add: serve_def post_def)
subsection \<open>Requests that reach the collectors\<close>

lemma serve_admitted:
  assumes "admitted w rq = Some (owner, repo, key)"
  shows "serve w rq =
     (case analyze w owner repo key of
        (Inr r, evs) \<Rightarrow> (r, Env_read (js ''LOVABLE_API_KEY'') # evs)
      | (Inl e, evs) \<Rightarrow>
          (json_response 500 (message_of w e),
           Env_read (js ''LOVABLE_API_KEY'') # evs
             @ [Console_error [Log_text (js ''analyze-repo error:''), Log_exn e]]))"
  using assms
  by (auto simp: admitted_def serve_def try_body_def
           split: if_splits sum.splits option.splits prod.splits)

lemma collector_url:
  assumes "fetchRepoStats w owner repo = (st, [Fetch g])"
  shows "\<exists>ow rp. ToString owner = Inr ow \<and> ToString repo = Inr rp"
  using assms by (auto simp: fetchRepoStats_def split: sum.splits)

lemma analyze_not_found:
  assumes "fetchRepoStats w owner repo = (None, ev3)"
    and "ToString owner = Inr ow" and "ToString repo = Inr rp"
  shows "analyze w owner repo key =
     (Inr (json_response 404
             (js ''Repository '' @ ow @ js ''/'' @ rp @ js '' not found or inaccessible.'')),
      snd (fetchReadme w owner repo) @ snd (fetchIssues w owner repo) @ ev3)"
  using assms by (simp add: analyze_def split: prod.splits)

text \<open>
  C6. When a request reaches the collectors and the repository-statistics request is
  issued and yields the unavailable result (\<open>null\<close>), the response has status 404 and
  the body \<open>{error: "Repository <owner>/<repo> not found or inaccessible."}\<close>, and no
  request to the generation service is among the requests issued, whatever the readme and
  issues requests returned.
\<close>

theorem stats_unavailable_gives_404:
  assumes "admitted w rq = Some (owner, repo, key)"
    and "fetchRepoStats w owner repo = (None, [Fetch g])"
  shows "\<exists>ow rp. ToString owner = Inr ow \<and> ToString repo = Inr rp
           \<and> fst (serve w rq)
               = json_response 404
                   (js ''Repository '' @ ow @ js ''/'' @ rp @ js '' not found or inaccessible.'')
           \<and> \<not> list_ex calls_generation (snd (serve w rq))"
proof -
  obtain ow rp where o: "ToString owner = Inr ow" and r: "ToString repo = Inr rp"
    using collector_url [OF assms(2)] by blast
  have g: "\<not> calls_generation (Fetch g)"
    using fetchRepoStats_events [of w owner repo] assms(2) by simp
  have "fst (serve w rq)
          = json_response 404
              (js ''Repository '' @ ow @ js ''/'' @ rp @ js '' not found or inaccessible.'')
        \<and> \<not> list_ex calls_generation (snd (serve w rq))"
    using fetchReadme_events [of w owner repo] fetchIssues_events [of w owner repo] g
    by (simp add: serve_admitted [OF assms(1)] analyze_not_found [OF assms(2) o r]
                  calls_generation_def)
  with o r show ?thesis by blast
qed

theorem stats_unavailable_gives_404_witness:
  "admitted (example_world (readme_found (js ''# bar'')) (found (JArr [])) not_found network_down)
       (post (js ''foo'') (js ''bar''))
     = Some (JStr (js ''foo''), JStr (js ''bar''), js ''key'')
   \<and> fetchRepoStats
       (example_world (readme_found (js ''# bar'')) (found (JArr [])) not_found network_down)
       (JStr (js ''foo'')) (JStr (js ''bar''))
     = (None, [Fetch (get_request (js ''https://api.github.com/repos/foo/bar'')
                        (js ''application/vnd.github+json''))])
   \<and> fst (serve
        (example_world (readme_found (js ''# bar'')) (found (JArr [])) not_found network_down)
        (post (js ''foo'') (js ''bar'')))
     = json_response 404 (js ''Repository foo/bar not found or inaccessible.'')
   \<and> \<not> list_ex calls_generation (snd (serve
        (example_world (readme_found (js ''# bar'')) (found (JArr [])) not_found network_down)
        (post (js ''foo'') (js ''bar''))))"
proof -
  let ?w = "example_world (readme_found (js ''# bar'')) (found (JArr [])) not_found network_down"
  let ?rq = "post (js ''foo'') (js ''bar'')"
  have a: "admitted ?w ?rq = Some (JStr (js ''foo''), JStr (js ''bar''), js ''key'')"
    by (simp add: admitted_def example_defs destructure_def js_ops js_def)
  have s: "fetchRepoStats ?w (JStr (js ''foo'')) (JStr (js ''bar''))
           = (None, [Fetch (get_request (js ''https://api.github.com/repos/foo/bar'')
                              (js ''application/vnd.github+json''))])"
    by (simp add: fetchRepoStats_def example_defs GITHUB_API_def GATEWAY_URL_def
                  get_request_def ok_def str_defs)
  from stats_unavailable_gives_404 [OF a s] a s show ?thesis
    by (auto simp: js_def)
qed
subsection \<open>The call of the generation service\<close>

lemma not_among:
  "\<not> list_ex calls_generation evs \<Longrightarrow> req_url g = GATEWAY_URL \<Longrightarrow> Fetch g \<notin> set evs"
  by (auto simp: list_ex_iff calls_generation_def)

lemma analyze_generation:
  assumes a: "analyze w owner repo key = (r, evs)"
    and g: "Fetch g \<in> set evs" and u: "req_url g = GATEWAY_URL"
  shows "\<exists>prompt pre post.
           evs = pre @ Fetch g # post \<and> g = generation_request key prompt
           \<and> \<not> list_ex calls_generation pre \<and> \<not> list_ex calls_generation post
           \<and> (case fetch w g of
                 Rejected e \<Rightarrow> r = Inl e \<and> post = []
               | Responded res \<Rightarrow> relay res = (r, post))"
proof -
  obtain readme ev1 where f1: "fetchReadme w owner repo = (readme, ev1)"
    by (cases "fetchReadme w owner repo")
  obtain issues ev2 where f2: "fetchIssues w owner repo = (issues, ev2)"
    by (cases "fetchIssues w owner repo")
  obtain st ev3 where f3: "fetchRepoStats w owner repo = (st, ev3)"
    by (cases "fetchRepoStats w owner repo")
  define pre where "pre = ev1 @ ev2 @ ev3"
  have pre: "\<not> list_ex calls_generation pre"
    using fetchReadme_events [of w owner repo] fetchIssues_events [of w owner repo]
      fetchRepoStats_events [of w owner repo] f1 f2 f3
    by (simp add: pre_def)
  note out = not_among [OF pre u]
  show ?thesis
  proof (cases st)
    case None
    then have "evs = pre"
      using a f1 f2 f3 by (auto simp: analyze_def pre_def split: sum.splits)
    with g out show ?thesis by simp
  next
    case (Some s)
    show ?thesis
    proof (cases "userContent owner repo s readme issues")
      case (Inl e)
      then have "evs = pre"
        using a f1 f2 f3 Some by (auto simp: analyze_def pre_def)
      with g out show ?thesis by simp
    next
      case (Inr prompt)
      define rq where "rq = generation_request key prompt"
      show ?thesis
      proof (cases "fetch w rq")
        case (Rejected e)
        then have r: "r = Inl e" and evs: "evs = pre @ [Fetch rq]"
          using a f1 f2 f3 Some Inr by (auto simp: analyze_def pre_def rq_def)
        then have "g = rq"
          using g out by simp
        then have "evs = pre @ Fetch g # [] \<and> g = generation_request key prompt
           \<and> \<not> list_ex calls_generation pre \<and> \<not> list_ex calls_generation []
           \<and> (case fetch w g of
                 Rejected e \<Rightarrow> r = Inl e \<and> [] = []
               | Responded res \<Rightarrow> relay res = (r, []))"
          using r evs pre Rejected by (simp add: rq_def)
        then show ?thesis by blast
      next
        case (Responded res)
        obtain r' ev4 where rel: "relay res = (r', ev4)"
          by (cases "relay res")
        have post: "\<not> list_ex calls_generation ev4"
          using relay_events [of res] rel by simp
        have r: "r = r'" and evs: "evs = pre @ Fetch rq # ev4"
          using a f1 f2 f3 Some Inr Responded rel by (auto simp: analyze_def pre_def rq_def)
        then have "g = rq"
          using g out not_among [OF post u] by simp
        then have "evs = pre @ Fetch g # ev4 \<and> g = generation_request key prompt
           \<and> \<not> list_ex calls_generation pre \<and> \<not> list_ex calls_generation ev4
           \<and> (case fetch w g of
                 Rejected e \<Rightarrow> r = Inl e \<and> ev4 = []
               | Responded res \<Rightarrow> relay res = (r, ev4))"
          using r evs pre post Responded rel by (simp add: rq_def)
        then show ?thesis by blast
      qed
    qed
  qed
qed

lemma serve_not_admitted:
  assumes "admitted w rq = None" and "serve w rq = (resp, evs)"
  shows "Fetch g \<notin> set evs"
  using assms
  by (auto simp: admitted_def serve_def try_body_def
           split: if_splits sum.splits option.splits prod.splits)

text \<open>
  C7. When the handler has called the generation service and the service has answered,
  the response is decided by the answer's status alone: 429 and 402 give the rate-limit
  and the quota error with the same status; any other non-success status gives status 500
  with the fixed message, the upstream body appearing only in the log (when the upstream
  body cannot be read, status 500 with the message of that failure); a success status
  passes the upstream body stream on with content type \<open>text/event-stream\<close>. The
  service is called exactly once.
\<close>

theorem generation_status_mapping:
  assumes "serve w rq = (resp, evs)"
    and "Fetch g \<in> set evs" and "req_url g = GATEWAY_URL"
    and "fetch w g = Responded res"
  shows "(http_status res = 429 \<longrightarrow>
            resp = json_response 429 (js ''Rate limit exceeded. Please try again later.''))
       \<and> (http_status res = 402 \<longrightarrow>
            resp = json_response 402 (js ''AI usage limit reached. Please add credits.''))
       \<and> (\<not> ok res \<and> http_status res \<noteq> 429 \<and> http_status res \<noteq> 402 \<longrightarrow>
            (case body_text res of
               Inr t \<Rightarrow>
                 resp = json_response 500 (js ''AI analysis failed.'')
                 \<and> last evs = Console_error [Log_text (js ''AI gateway error:''),
                                              Log_number (http_status res), Log_text t]
             | Inl e \<Rightarrow> resp = json_response 500 (message_of w e)))
       \<and> (ok res \<longrightarrow>
            resp = \<lparr>status = 200,
                    headers = corsHeaders @ [(js ''Content-Type'', js ''text/event-stream'')],
                    body = Stream_body (body_stream res)\<rparr>)
       \<and> length (filter calls_generation evs) = 1"
proof -
  obtain owner repo key where adm: "admitted w rq = Some (owner, repo, key)"
    using serve_not_admitted [OF _ assms(1), of g] assms(2) by (cases "admitted w rq") auto
  obtain r evs' where an: "analyze w owner repo key = (r, evs')"
    by (cases "analyze w owner repo key")
  have evs: "evs = Env_read (js ''LOVABLE_API_KEY'') # evs'
               @ (case r of Inr x \<Rightarrow> []
                  | Inl e \<Rightarrow> [Console_error [Log_text (js ''analyze-repo error:''), Log_exn e]])"
    and resp: "resp = (case r of Inr x \<Rightarrow> x | Inl e \<Rightarrow> json_response 500 (message_of w e))"
    using assms(1) an by (auto simp: serve_admitted [OF adm] split: sum.splits)
  have "Fetch g \<in> set evs'"
    using assms(2) evs by (auto split: sum.splits)
  from analyze_generation [OF an this assms(3)]
  obtain prompt pre post where shape: "evs' = pre @ Fetch g # post"
    and pre: "\<not> list_ex calls_generation pre" and post: "\<not> list_ex calls_generation post"
    and rel: "relay res = (r, post)"
    using assms(4) by auto
  have once: "length (filter calls_generation evs) = 1"
    using pre post assms(3)
    by (auto simp: evs shape calls_generation_def list_ex_iff filter_empty_conv
             split: sum.splits)
  have ok429: "http_status res = 429 \<Longrightarrow> \<not> ok res"
    and ok402: "http_status res = 402 \<Longrightarrow> \<not> ok res"
    by (simp_all add: ok_def)
  show ?thesis
    using rel once ok429 ok402
    by (auto simp: relay_def resp evs shape split: if_splits sum.splits)
qed
lemma serve_calls_generation:
  assumes adm: "admitted w rq = Some (owner, repo, key)"
    and st: "fetchRepoStats w owner repo = (Some st, ev3)"
    and rd: "fetchReadme w owner repo = (readme, ev1)"
    and iss: "fetchIssues w owner repo = (issues, ev2)"
    and p: "userContent owner repo st readme issues = Inr prompt"
  shows "Fetch (generation_request key prompt) \<in> set (snd (serve w rq))"
proof -
  have "Fetch (generation_request key prompt) \<in> set (snd (analyze w owner repo key))"
    using st rd iss p
    by (auto simp: analyze_def Let_def split: fetch_result.splits prod.splits)
  then show ?thesis
    by (auto simp: serve_admitted [OF adm] split: prod.splits sum.splits)
qed

lemmas prompt_defs = userContent_def topics_text_def join_or_def issues_text_def issue_line_def

theorem generation_status_mapping_witness:
  "(\<exists>g. Fetch g \<in> set (snd (serve
            (example_world (readme_found (js ''# bar'')) (found (JArr [])) (found repo_json)
               (reply 503 (Inr (js ''upstream exploded'')) (Inl Thrown_exn) ()))
            (post (js ''foo'') (js ''bar''))))
        \<and> req_url g = GATEWAY_URL
        \<and> fetch (example_world (readme_found (js ''# bar'')) (found (JArr [])) (found repo_json)
                   (reply 503 (Inr (js ''upstream exploded'')) (Inl Thrown_exn) ())) g
            = reply 503 (Inr (js ''upstream exploded'')) (Inl Thrown_exn) ())
   \<and> fst (serve
        (example_world (readme_found (js ''# bar'')) (found (JArr [])) (found repo_json)
           (reply 503 (Inr (js ''upstream exploded'')) (Inl Thrown_exn) ()))
        (post (js ''foo'') (js ''bar'')))
     = json_response 500 (js ''AI analysis failed.'')
   \<and> length (filter calls_generation (snd (serve
        (example_world (readme_found (js ''# bar'')) (found (JArr [])) (found repo_json)
           (reply 503 (Inr (js ''upstream exploded'')) (Inl Thrown_exn) ()))
        (post (js ''foo'') (js ''bar''))))) = 1"
proof -
  let ?gen = "reply 503 (Inr (js ''upstream exploded'')) (Inl Thrown_exn) ()"
  let ?w = "example_world (readme_found (js ''# bar'')) (found (JArr [])) (found repo_json) ?gen"
  let ?rq = "post (js ''foo'') (js ''bar'')"
  let ?owner = "JStr (js ''foo'')" and ?repo = "JStr (js ''bar'')"
  have adm: "admitted ?w ?rq = Some (?owner, ?repo, js ''key'')"
    by (simp add: admitted_def example_defs destructure_def js_ops js_def)
  obtain st ev3 where st: "fetchRepoStats ?w ?owner ?repo = (Some st, ev3)"
    and tp: "topics st = JArr [JStr (js ''cli''), JStr (js ''deno'')]"
    by (simp add: fetchRepoStats_def example_defs GITHUB_API_def GATEWAY_URL_def
                  get_request_def ok_def str_defs read_stats_def js_ops)
  obtain readme ev1 where rd: "fetchReadme ?w ?owner ?repo = (readme, ev1)"
    by (cases "fetchReadme ?w ?owner ?repo")
  obtain issues ev2 where iss: "fetchIssues ?w ?owner ?repo = (issues, ev2)"
    and none: "issues = []"
    by (simp add: fetchIssues_def example_defs GITHUB_API_def GATEWAY_URL_def
                  get_request_def ok_def str_defs summarize_issues_def js_ops)
  obtain prompt where p: "userContent ?owner ?repo st readme issues = Inr prompt"
    using st none
    by (auto simp: prompt_defs fetchRepoStats_def example_defs GITHUB_API_def GATEWAY_URL_def
                  get_request_def ok_def str_defs read_stats_def js_ops)
  let ?g = "generation_request (js ''key'') prompt"
  have g: "Fetch ?g \<in> set (snd (serve ?w ?rq))"
    using serve_calls_generation [OF adm st rd iss p] .
  have u: "req_url ?g = GATEWAY_URL"
    by (simp add: generation_request_def)
  have f: "fetch ?w ?g = Responded \<lparr>http_status = 503, body_text = Inr (js ''upstream exploded''),
                                      body_json = Inl Thrown_exn, body_stream = ()\<rparr>"
    by (simp add: example_world_def generation_request_def reply_def)
  from generation_status_mapping [OF prod.collapse [symmetric] g u f] g u f
  show ?thesis
    by (auto simp: ok_def reply_def)
qed
subsection \<open>What the prompt contains\<close>

lemma str_includes_prefix: "str_includes (k @ b) k"
proof (cases "k @ b")
  case Nil
  then show ?thesis by simp
next
  case (Cons c s)
  have "startsWith (k @ b) k"
    by (simp add: startsWith_def)
  then show ?thesis
    unfolding Cons by simp
qed

lemma str_includes_append: "str_includes r x \<Longrightarrow> str_includes (a @ r) x"
  by (induction a) simp_all

lemma template_includes:
  "template ps = Inr s \<Longrightarrow> Inr x \<in> set ps \<Longrightarrow> str_includes s x"
proof (induction ps arbitrary: s)
  case Nil
  then show ?case by simp
next
  case (Cons p ps)
  from Cons.prems(1) obtain a r where p: "p = Inr a" and r: "template ps = Inr r"
    and s: "s = a @ r"
    by (auto split: sum.splits)
  show ?case
  proof (cases "Inr x = p")
    case True
    then show ?thesis
      using p s by (simp add: str_includes_prefix)
  next
    case False
    then have "Inr x \<in> set ps"
      using Cons.prems(2) by auto
    then show ?thesis
      using Cons.IH [OF r] s by (simp add: str_includes_append)
  qed
qed

lemma userContent_includes:
  assumes "userContent owner repo st readme issues = Inr prompt"
  shows "str_includes prompt readme"
    and "issues_text issues = Inr t \<Longrightarrow> str_includes prompt t"
proof -
  show "str_includes prompt readme"
    using assms unfolding userContent_def by (rule template_includes) simp
  show "str_includes prompt t" if "issues_text issues = Inr t"
    using assms unfolding userContent_def that by (rule template_includes) simp
qed

lemma fetchReadme_text:
  assumes "fetchRepoStats w owner repo = (sto, [Fetch g3])"
  shows "\<exists>g1. fetchReadme w owner repo = (readme_text (fetch w g1), [Fetch g1])"
  using assms
  by (auto simp: fetchReadme_def fetchRepoStats_def readme_text_def Let_def
           split: sum.splits fetch_result.splits)

lemma fetchIssues_unavailable:
  assumes "fetchRepoStats w owner repo = (sto, [Fetch g3])"
  shows "\<exists>g2. snd (fetchIssues w owner repo) = [Fetch g2]
           \<and> (issues_unavailable (fetch w g2) \<longrightarrow> fst (fetchIssues w owner repo) = [])"
  using assms
  by (auto simp: fetchIssues_def fetchRepoStats_def issues_unavailable_def Let_def
           split: sum.splits fetch_result.splits)

text \<open>
  C8 (as amended). Let a request reach the collectors, let the statistics request be
  issued and succeed, and let the prompt be renderable from what the collectors returned.
  Then the generation service is called with that prompt, and the prompt contains the text
  the readme collector returned: \<open>README not found.\<close> when the readme request was
  answered with a non-success status, \<open>Failed to fetch README.\<close> when it failed on the
  network or its body could not be read. When the issues request fails for any cause
  (network error, non-success status, malformed body) the prompt contains
  \<open>No open issues found.\<close>
\<close>

theorem failed_source_default_in_prompt:
  assumes "admitted w rq = Some (owner, repo, key)"
    and "fetchRepoStats w owner repo = (Some st, [Fetch g3])"
    and "userContent owner repo st (fst (fetchReadme w owner repo))
           (fst (fetchIssues w owner repo)) = Inr prompt"
  shows "Fetch (generation_request key prompt) \<in> set (snd (serve w rq))
       \<and> (\<exists>g1 g2. snd (fetchReadme w owner repo) = [Fetch g1]
                 \<and> snd (fetchIssues w owner repo) = [Fetch g2]
                 \<and> str_includes prompt (readme_text (fetch w g1))
                 \<and> (issues_unavailable (fetch w g2) \<longrightarrow>
                      str_includes prompt (js ''No open issues found.'')))"
proof -
  obtain g1 where g1: "fetchReadme w owner repo = (readme_text (fetch w g1), [Fetch g1])"
    using fetchReadme_text [OF assms(2)] by blast
  obtain g2 where g2: "snd (fetchIssues w owner repo) = [Fetch g2]"
    and un: "issues_unavailable (fetch w g2) \<longrightarrow> fst (fetchIssues w owner repo) = []"
    using fetchIssues_unavailable [OF assms(2)] by blast
  have called: "Fetch (generation_request key prompt) \<in> set (snd (serve w rq))"
    using serve_calls_generation [OF assms(1,2) prod.collapse [symmetric]
        prod.collapse [symmetric] assms(3)] .
  have readme: "str_includes prompt (readme_text (fetch w g1))"
    using userContent_includes(1) [OF assms(3)] g1 by simp
  have "str_includes prompt (js ''No open issues found.'')"
    if "issues_unavailable (fetch w g2)"
    using userContent_includes(2) [OF assms(3), of "js ''No open issues found.''"] un that
    by (simp add: issues_text_def)
  with called readme g1 g2 show ?thesis
    by auto
qed

theorem failed_source_default_in_prompt_witness:
  "admitted (example_world not_found network_down (found repo_json) network_down)
       (post (js ''foo'') (js ''bar''))
     = Some (JStr (js ''foo''), JStr (js ''bar''), js ''key'')
   \<and> (\<exists>st g3 prompt.
        fetchRepoStats (example_world not_found network_down (found repo_json) network_down)
            (JStr (js ''foo'')) (JStr (js ''bar''))
          = (Some st, [Fetch g3])
        \<and> Fetch (generation_request (js ''key'') prompt)
            \<in> set (snd (serve (example_world not_found network_down (found repo_json) network_down)
                           (post (js ''foo'') (js ''bar''))))
        \<and> str_includes prompt (js ''README not found.'')
        \<and> str_includes prompt (js ''No open issues found.''))"
proof -
  let ?w = "example_world not_found network_down (found repo_json) network_down"
  let ?rq = "post (js ''foo'') (js ''bar'')"
  let ?owner = "JStr (js ''foo'')" and ?repo = "JStr (js ''bar'')"
  have adm: "admitted ?w ?rq = Some (?owner, ?repo, js ''key'')"
    by (simp add: admitted_def example_defs destructure_def js_ops js_def)
  obtain st g3 where st: "fetchRepoStats ?w ?owner ?repo = (Some st, [Fetch g3])"
    and tp: "topics st = JArr [JStr (js ''cli''), JStr (js ''deno'')]"
    by (simp add: fetchRepoStats_def example_defs GITHUB_API_def GATEWAY_URL_def
                  get_request_def ok_def str_defs read_stats_def js_ops)
  have rd: "fetchReadme ?w ?owner ?repo
            = (js ''README not found.'',
               [Fetch (get_request (js ''https://api.github.com/repos/foo/bar/readme'')
                         (js ''application/vnd.github.raw''))])"
    by (simp add: fetchReadme_def example_defs GITHUB_API_def GATEWAY_URL_def
                  get_request_def ok_def str_defs)
  have iss: "fetchIssues ?w ?owner ?repo
             = ([], [Fetch (get_request
                       (js ''https://api.github.com/repos/foo/bar/issues?state=open&per_page=15'')
                       (js ''application/vnd.github+json''))])"
    by (simp add: fetchIssues_def example_defs GITHUB_API_def GATEWAY_URL_def
                  get_request_def ok_def str_defs)
  obtain prompt where p: "userContent ?owner ?repo st (fst (fetchReadme ?w ?owner ?repo))
                            (fst (fetchIssues ?w ?owner ?repo)) = Inr prompt"
    using st unfolding iss rd
    by (auto simp: prompt_defs fetchRepoStats_def example_defs GITHUB_API_def GATEWAY_URL_def
                  get_request_def ok_def str_defs read_stats_def js_ops)
  have r1: "fetch ?w (get_request (js ''https://api.github.com/repos/foo/bar/readme'')
                        (js ''application/vnd.github.raw'')) = not_found"
    by (simp add: example_world_def get_request_def GATEWAY_URL_def str_defs)
  have r2: "fetch ?w (get_request
                 (js ''https://api.github.com/repos/foo/bar/issues?state=open&per_page=15'')
                 (js ''application/vnd.github+json'')) = network_down"
    by (simp add: example_world_def get_request_def GATEWAY_URL_def str_defs)
  have t: "readme_text (not_found :: unit fetch_result) = js ''README not found.''"
    and u: "issues_unavailable network_down"
    by (simp_all add: readme_text_def issues_unavailable_def example_defs ok_def)
  from failed_source_default_in_prompt [OF adm st p] rd iss r1 r2 t u adm st
  show ?thesis
    by auto
qed

text \<open>
  C8 as stated fails for the readme source: when its request fails on the network (and
  statistics and issues succeed) the request is still completed, but the prompt holds
  \<open>Failed to fetch README.\<close> and not \<open>README not found.\<close>
\<close>

theorem readme_network_error_counterexample:
  "fst (fetchRepoStats
          (example_world network_down (found (JArr [issue_json (js ''Crash on start'')]))
             (found repo_json) network_down)
          (JStr (js ''foo'')) (JStr (js ''bar''))) \<noteq> None
   \<and> length (fst (fetchIssues
          (example_world network_down (found (JArr [issue_json (js ''Crash on start'')]))
             (found repo_json) network_down)
          (JStr (js ''foo'')) (JStr (js ''bar'')))) = 1
   \<and> fetch (example_world network_down (found (JArr [issue_json (js ''Crash on start'')]))
             (found repo_json) network_down)
        (get_request (js ''https://api.github.com/repos/foo/bar/readme'')
           (js ''application/vnd.github.raw''))
      = Rejected (Error_exn (js ''error sending request''))
   \<and> Fetch (generation_request (js ''key'') prompt_after_network_error)
      \<in> set (snd (serve
          (example_world network_down (found (JArr [issue_json (js ''Crash on start'')]))
             (found repo_json) network_down)
          (post (js ''foo'') (js ''bar''))))
   \<and> \<not> str_includes prompt_after_network_error (js ''README not found.'')
   \<and> str_includes prompt_after_network_error (js ''Failed to fetch README.'')"
  by (simp add: prompt_after_network_error_def serve_def try_body_def analyze_def relay_def
        prompt_defs fetchReadme_def fetchIssues_def fetchRepoStats_def summarize_issues_def
        summarize_issue_def label_names_def read_stats_def destructure_def
        example_defs GITHUB_API_def GATEWAY_URL_def get_request_def generation_request_def
        ok_def str_defs js_ops decimal.simps enumerate_eq_zip)
subsection \<open>The issue list\<close>

lemma map_exn_Inr_iff: "map_exn f xs = Inr ys \<longleftrightarrow> map f xs = map Inr ys"
proof (induction xs arbitrary: ys)
  case Nil
  show ?case by auto
next
  case (Cons x xs)
  show ?case
  proof (cases "f x")
    case (Inl e)
    then show ?thesis by (auto simp: map_eq_Cons_conv)
  next
    case (Inr y)
    show ?thesis
    proof (cases "map_exn f xs")
      case (Inl e)
      then have "\<nexists>zs. map f xs = map Inr zs"
        using Cons.IH by (metis sum.distinct(1))
      then show ?thesis
        using Inl Inr by (auto simp: map_eq_Cons_conv)
    next
      case ys': (Inr zs)
      then have "map f xs = map Inr zs"
        using Cons.IH by simp
      then show ?thesis
        using Inr ys' by (cases ys) (auto simp: inj_map_eq_map [OF inj_Inr])
    qed
  qed
qed

text \<open>
  C9 (as amended). The collector asks for at most 15 issues (\<open>per_page=15\<close> in the one
  request it issues) and does not truncate the answer: what it returns is either empty
  or one summary per element of the array the endpoint returned, in the order returned,
  so that it has as many entries as that array. The prompt renders one line per summary,
  in the same order.
\<close>

theorem issue_list_follows_response:
  assumes "fetchIssues w owner repo = (issues, evs)"
  shows "(evs = []
          \<or> (\<exists>url. evs = [Fetch (get_request url (js ''application/vnd.github+json''))]
                   \<and> endsWith url (js ''/issues?state=open&per_page=15'')))
       \<and> (issues = []
          \<or> (\<exists>g res xs. evs = [Fetch g] \<and> fetch w g = Responded res
                   \<and> body_json res = Inr (JArr xs)
                   \<and> map summarize_issue xs = map Inr issues
                   \<and> length issues = length xs))
       \<and> (\<forall>t. issues \<noteq> [] \<and> issues_text issues = Inr t \<longrightarrow>
             (\<exists>lines. t = str_join [0x0A] lines
                   \<and> map (\<lambda>(idx, i). issue_line idx i) (enumerate 0 issues) = map Inr lines))"
proof -
  have req: "evs = []
          \<or> (\<exists>url. evs = [Fetch (get_request url (js ''application/vnd.github+json''))]
                   \<and> endsWith url (js ''/issues?state=open&per_page=15''))"
    using assms by (auto simp: fetchIssues_def Let_def endsWith_def split: sum.splits)
  have res: "issues = []
          \<or> (\<exists>g res xs. evs = [Fetch g] \<and> fetch w g = Responded res
                   \<and> body_json res = Inr (JArr xs)
                   \<and> map summarize_issue xs = map Inr issues
                   \<and> length issues = length xs)"
  proof (cases "issues = []")
    case True
    then show ?thesis by simp
  next
    case False
    then obtain g res v where g: "evs = [Fetch g]" and f: "fetch w g = Responded res"
      and b: "body_json res = Inr v" and s: "summarize_issues v = Inr issues"
      using assms
      by (auto simp: fetchIssues_def Let_def and_then_def
               split: sum.splits fetch_result.splits if_splits)
    from s obtain xs where v: "v = JArr xs" and m: "map_exn summarize_issue xs = Inr issues"
      by (auto simp: summarize_issues_def split: js_value.splits)
    from m have eq: "map summarize_issue xs = map Inr issues"
      by (simp add: map_exn_Inr_iff)
    then have "length issues = length xs"
      by (metis length_map)
    with g f b v eq show ?thesis by blast
  qed
  have "\<exists>lines. t = str_join [0x0A] lines
             \<and> map (\<lambda>(idx, i). issue_line idx i) (enumerate 0 issues) = map Inr lines"
    if "issues \<noteq> []" and "issues_text issues = Inr t" for t
    using that
    by (auto simp: issues_text_def and_then_def map_exn_Inr_iff split: sum.splits)
  with req res show ?thesis
    by blast
qed

theorem issue_list_follows_response_witness:
  "fetchIssues
     (example_world network_down
        (found (JArr [issue_json (js ''Crash on start''), issue_json (js ''Typo in docs'')]))
        network_down network_down)
     (JStr (js ''foo'')) (JStr (js ''bar''))
   = ([\<lparr>issue_title = JStr (js ''Crash on start''), issue_labels = [JStr (js ''bug'')],
        issue_state = JStr (js ''open''), issue_comments = JNum False (js ''3''),
        issue_url = JStr (js ''https://github.com/foo/bar/issues/1'')\<rparr>,
       \<lparr>issue_title = JStr (js ''Typo in docs''), issue_labels = [JStr (js ''bug'')],
        issue_state = JStr (js ''open''), issue_comments = JNum False (js ''3''),
        issue_url = JStr (js ''https://github.com/foo/bar/issues/1'')\<rparr>],
      [Fetch (get_request
                (js ''https://api.github.com/repos/foo/bar/issues?state=open&per_page=15'')
                (js ''application/vnd.github+json''))])
   \<and> (\<exists>g res xs.
         fetch (example_world network_down
                  (found (JArr [issue_json (js ''Crash on start''),
                                issue_json (js ''Typo in docs'')]))
                  network_down network_down) g = Responded res
         \<and> body_json res = Inr (JArr xs) \<and> length xs = 2)"
proof -
  let ?w = "example_world network_down
        (found (JArr [issue_json (js ''Crash on start''), issue_json (js ''Typo in docs'')]))
        network_down network_down"
  let ?issues = "[\<lparr>issue_title = JStr (js ''Crash on start''), issue_labels = [JStr (js ''bug'')],
        issue_state = JStr (js ''open''), issue_comments = JNum False (js ''3''),
        issue_url = JStr (js ''https://github.com/foo/bar/issues/1'')\<rparr>,
       \<lparr>issue_title = JStr (js ''Typo in docs''), issue_labels = [JStr (js ''bug'')],
        issue_state = JStr (js ''open''), issue_comments = JNum False (js ''3''),
        issue_url = JStr (js ''https://github.com/foo/bar/issues/1'')\<rparr>]"
  let ?evs = "[Fetch (get_request
                (js ''https://api.github.com/repos/foo/bar/issues?state=open&per_page=15'')
                (js ''application/vnd.github+json''))]"
  have f: "fetchIssues ?w (JStr (js ''foo'')) (JStr (js ''bar'')) = (?issues, ?evs)"
    by (simp add: fetchIssues_def summarize_issues_def summarize_issue_def label_names_def
          example_defs GITHUB_API_def GATEWAY_URL_def get_request_def ok_def str_defs js_ops)
  from issue_list_follows_response [OF f, THEN conjunct2, THEN conjunct1]
  obtain g res xs where "fetch ?w g = Responded res" and "body_json res = Inr (JArr xs)"
    and "length ?issues = length xs"
    by auto
  moreover from this have "length xs = 2"
    by simp
  ultimately have "\<exists>g res xs. fetch ?w g = Responded res \<and> body_json res = Inr (JArr xs)
               \<and> length xs = 2"
    by blast
  with f show ?thesis
    by simp
qed

text \<open>
  C9 as stated fails: the bound is the endpoint's, not the collector's. When the endpoint
  answers with sixteen issues, the collector returns sixteen summaries.
\<close>

theorem sixteen_issues_counterexample:
  "length (fst (fetchIssues
       (example_world network_down
          (found (JArr (replicate 16 (issue_json (js ''Crash on start'')))))
          network_down network_down)
       (JStr (js ''foo'')) (JStr (js ''bar'')))) = 16"
proof -
  have one: "summarize_issue (issue_json t)
             = Inr \<lparr>issue_title = JStr t, issue_labels = [JStr (js ''bug'')],
                    issue_state = JStr (js ''open''), issue_comments = JNum False (js ''3''),
                    issue_url = JStr (js ''https://github.com/foo/bar/issues/1'')\<rparr>" for t
    by (simp add: summarize_issue_def label_names_def issue_json_def js_ops js_def)
  have many: "map_exn summarize_issue (replicate n (issue_json t))
              = Inr (replicate n
                   \<lparr>issue_title = JStr t, issue_labels = [JStr (js ''bug'')],
                    issue_state = JStr (js ''open''), issue_comments = JNum False (js ''3''),
                    issue_url = JStr (js ''https://github.com/foo/bar/issues/1'')\<rparr>)" for n t
    by (induction n) (simp_all add: one)
  show ?thesis
    by (simp add: fetchIssues_def summarize_issues_def many and_then_def
          example_world_def found_def reply_def network_down_def
          GITHUB_API_def GATEWAY_URL_def get_request_def ok_def str_defs)
qed
end
